theory Spec2Isabelle
  imports Complex_Main "HOL-Library.AList"
begin

section \<open>The multi-region manager\<close>

text \<open>
  A shallow embedding of the class \<open>MultiRegionManager\<close>: the region registry, the
  latency cache, the health records, the region selection and the failover executor.

  JavaScript numbers that hold latencies are modelled as exact rationals, region
  identifiers and messages as strings. The two \<open>Map\<close> objects of the manager are
  modelled after the way the code reads them: \<open>regionHealth\<close> is iterated
  (\<open>entries()\<close>), so it is an association list in insertion order, where
  \<open>AList.update\<close> behaves as \<open>Map.prototype.set\<close> does (an existing key keeps
  its position, a new key goes to the end); \<open>latencyCache\<close> is only read by key, so it
  is a partial function.
\<close>

subsection \<open>Region registry\<close>

record region =
  name :: string
  endpoint :: string
  priority :: nat
  healthCheck :: string
  latencyThreshold :: nat
  timezone :: string

definition REGIONS :: "(string \<times> region) list" where
  "REGIONS =
    [(''us-east-1'', \<lparr>name = ''US East (Virginia)'',
        endpoint = ''https://us-east-api.web-scan.com'', priority = 1,
        healthCheck = ''/health'', latencyThreshold = 200, timezone = ''America/New_York''\<rparr>),
     (''us-west-2'', \<lparr>name = ''US West (Oregon)'',
        endpoint = ''https://us-west-api.web-scan.com'', priority = 2,
        healthCheck = ''/health'', latencyThreshold = 250, timezone = ''America/Los_Angeles''\<rparr>),
     (''eu-west-1'', \<lparr>name = ''Europe (Ireland)'',
        endpoint = ''https://eu-west-api.web-scan.com'', priority = 1,
        healthCheck = ''/health'', latencyThreshold = 300, timezone = ''Europe/Dublin''\<rparr>),
     (''ap-southeast-1'', \<lparr>name = ''Asia Pacific (Singapore)'',
        endpoint = ''https://ap-southeast-api.web-scan.com'', priority = 1,
        healthCheck = ''/health'', latencyThreshold = 400, timezone = ''Asia/Singapore''\<rparr>)]"

definition GEO_REGIONS :: "(string \<times> string list) list" where
  "GEO_REGIONS =
    [(''US'', [''us-east-1'', ''us-west-2'']),
     (''CA'', [''us-east-1'', ''us-west-2'']),
     (''GB'', [''eu-west-1'']),
     (''DE'', [''eu-west-1'']),
     (''FR'', [''eu-west-1'']),
     (''SG'', [''ap-southeast-1'']),
     (''JP'', [''ap-southeast-1'']),
     (''AU'', [''ap-southeast-1''])]"

text \<open>
  \<open>REGIONS\<close> and \<open>GEO_REGIONS\<close> are object literals, and the code reads them with
  \<open>REGIONS[regionId]\<close> and \<open>GEO_REGIONS[userCountry]\<close>. Such a read also finds the
  properties every object inherits from \<open>Object.prototype\<close>; all of them are truthy
  (eleven functions and, under \<open>__proto__\<close>, the prototype object itself), and none of
  them is an array.
\<close>

definition object_prototype_keys :: "string list" where
  "object_prototype_keys =
    [''constructor'', ''__defineGetter__'', ''__defineSetter__'', ''hasOwnProperty'',
     ''__lookupGetter__'', ''__lookupSetter__'', ''isPrototypeOf'', ''propertyIsEnumerable'',
     ''toString'', ''valueOf'', ''__proto__'', ''toLocaleString'']"

subsection \<open>State of the manager\<close>

text \<open>
  A health record is the object the health check stores. The success branch and the
  failure branch of the check build objects with different properties, and the executor
  adds \<open>lastError\<close>; a property an object does not have is \<open>None\<close>, and so is
  \<open>latency: null\<close>.
\<close>

record health =
  regionId :: string
  status :: string
  latency :: "int option"
  lastCheck :: string
  responseTime :: "rat option"
  statusCode :: "nat option"
  healthy :: bool
  error :: "string option"
  lastError :: "string option"

record failover_event =
  timestamp :: string
  fromRegion :: string
  event_error :: string
  attempt :: nat

record manager =
  currentRegion :: string
  regionHealth :: "(string \<times> health) list"
  latencyCache :: "string \<rightharpoonup> rat list"
  failoverHistory :: "failover_event list"

text \<open>The fields the constructor sets, before the first health check has run.\<close>

definition constructed :: "string \<Rightarrow> manager" where
  "constructed home =
    \<lparr>currentRegion = home, regionHealth = [], latencyCache = Map.empty, failoverHistory = []\<rparr>"

subsection \<open>Latency cache\<close>

definition updateLatencyCache :: "manager \<Rightarrow> string \<Rightarrow> rat \<Rightarrow> manager" where
  "updateLatencyCache m rid lat =
    (let latencies = (case latencyCache m rid of None \<Rightarrow> [] | Some ls \<Rightarrow> ls) @ [lat];
         latencies = (if length latencies > 10 then tl latencies else latencies)
     in m\<lparr>latencyCache := (latencyCache m)(rid \<mapsto> latencies)\<rparr>)"

definition getAverageLatency :: "manager \<Rightarrow> string \<Rightarrow> rat option" where
  "getAverageLatency m rid =
    (let latencies = (case latencyCache m rid of None \<Rightarrow> [] | Some ls \<Rightarrow> ls)
     in if length latencies = 0 then None
        else Some (foldl (\<lambda>sum lat. sum + lat) 0 latencies / of_nat (length latencies)))"

text \<open>A sequence of \<open>updateLatencyCache\<close> calls, each with its region and its sample.\<close>

definition record_all :: "manager \<Rightarrow> (string \<times> rat) list \<Rightarrow> manager" where
  "record_all m samples = foldl (\<lambda>m (rid, lat). updateLatencyCache m rid lat) m samples"

text \<open>The last \<open>n\<close> elements of a list (all of it when it is shorter).\<close>

definition last_n :: "nat \<Rightarrow> 'a list \<Rightarrow> 'a list" where
  "last_n n xs = drop (length xs - n) xs"

definition samples_of :: "string \<Rightarrow> (string \<times> rat) list \<Rightarrow> rat list" where
  "samples_of rid samples = map snd (filter (\<lambda>p. fst p = rid) samples)"

subsection \<open>Numbers that may be \<open>Infinity\<close>\<close>

text \<open>
  \<open>selectByLatency\<close> starts from \<open>bestLatency = Infinity\<close>, and the comparator of
  \<open>getFailoverRegions\<close> replaces a missing average by \<open>Infinity\<close>. Such a value is
  a rational or \<open>Infinity\<close>, ordered as JavaScript orders them.
\<close>

datatype number = Num rat | Infinity

instantiation number :: linorder
begin

fun less_eq_number :: "number \<Rightarrow> number \<Rightarrow> bool" where
  "less_eq_number (Num a) (Num b) = (a \<le> b)"
| "less_eq_number (Num a) Infinity = True"
| "less_eq_number Infinity (Num b) = False"
| "less_eq_number Infinity Infinity = True"

fun less_number :: "number \<Rightarrow> number \<Rightarrow> bool" where
  "less_number (Num a) (Num b) = (a < b)"
| "less_number (Num a) Infinity = True"
| "less_number Infinity (Num b) = False"
| "less_number Infinity Infinity = False"

instance
proof
  fix x y z :: number
  show "(x < y) = (x \<le> y \<and> \<not> y \<le> x)"
    by (cases x; cases y) auto
  show "x \<le> x"
    by (cases x) auto
  show "x \<le> y \<Longrightarrow> y \<le> z \<Longrightarrow> x \<le> z"
    by (cases x; cases y; cases z) auto
  show "x \<le> y \<Longrightarrow> y \<le> x \<Longrightarrow> x = y"
    by (cases x; cases y) auto
  show "x \<le> y \<or> y \<le> x"
    by (cases x; cases y) auto
qed

end

subsection \<open>The HTTP transport\<close>

text \<open>
  The transport (axios) is outside the program. A request either resolves with a
  response (its status and its body) or is rejected with an error, which carries a
  message and, when the server answered at all, the status of its response: a timeout
  or a connection failure has no response. With the defaults of axios a request
  resolves exactly when the status is 2xx; a caller of \<open>executeWithFailover\<close> can
  change that through \<open>options\<close>, so a resolved response may have any status here.

  Together with the outcome the environment gives the two clock readings the handler
  takes: the elapsed time \<open>performance.now() - startTime\<close>, and the wall-clock time
  \<open>new Date().toISOString()\<close>.
\<close>

datatype outcome = Resolved nat string | Rejected "nat option" string

record reply =
  outcome :: outcome
  elapsed :: rat
  clock :: string

text \<open>\<open>Math.round\<close> rounds to the nearest integer, a half towards plus infinity.\<close>

definition Math_round :: "rat \<Rightarrow> int" where
  "Math_round x = \<lfloor>x + 1 / 2\<rfloor>"

subsection \<open>Health checks\<close>

text \<open>
  \<open>checkAllRegionsHealth\<close> starts one probe per region, all at once; the rest of each
  callback runs when its own probe settles. \<open>probe_settled\<close> is that rest of the
  callback for one region: the success branch after \<open>await\<close>, or the \<open>catch\<close> branch.
\<close>

definition probe_settled :: "manager \<Rightarrow> string \<times> region \<Rightarrow> reply \<Rightarrow> manager" where
  "probe_settled m entry rp =
    (case entry of (rid, config) \<Rightarrow>
      (case outcome rp of
        Resolved st body \<Rightarrow>
          (let lat = elapsed rp;
               h = \<lparr>regionId = rid,
                    status = (if st = 200 then ''healthy'' else ''unhealthy''),
                    latency = Some (Math_round lat),
                    lastCheck = clock rp,
                    responseTime = Some lat,
                    statusCode = Some st,
                    healthy = (st = 200 \<and> lat < of_nat (latencyThreshold config) * 2),
                    error = None,
                    lastError = None\<rparr>
           in updateLatencyCache
                (m\<lparr>regionHealth := AList.update rid h (regionHealth m)\<rparr>) rid lat)
      | Rejected st message \<Rightarrow>
          (let h = \<lparr>regionId = rid,
                    status = ''unhealthy'',
                    latency = None,
                    lastCheck = clock rp,
                    responseTime = None,
                    statusCode = None,
                    healthy = False,
                    error = Some message,
                    lastError = None\<rparr>
           in m\<lparr>regionHealth := AList.update rid h (regionHealth m)\<rparr>)))"

text \<open>
  One tick. \<open>probes\<close> gives the reply to the probe of each region, and \<open>settled\<close> is
  the order in which the probes settle: the entries of \<open>REGIONS\<close> in some order.
\<close>

definition checkAllRegionsHealth ::
    "(string \<Rightarrow> reply) \<Rightarrow> (string \<times> region) list \<Rightarrow> manager \<Rightarrow> manager" where
  "checkAllRegionsHealth probes settled m =
    foldl (\<lambda>m entry. probe_settled m entry (probes (fst entry))) m settled"

subsection \<open>Region selection\<close>

text \<open>
  What a call can throw: the \<open>TypeError\<close> of \<open>getBestRegion\<close>, or the error
  "All regions failed after \<open>attempts\<close> attempts", which carries the message of
  \<open>lastError\<close> (\<open>None\<close> when \<open>lastError\<close> is still \<open>null\<close>).
\<close>

datatype failure = TypeError | AllRegionsFailed nat "string option"

text \<open>
  \<open>regionIds[0]\<close> of an empty array is \<open>undefined\<close>, here \<open>None\<close>. The test
  \<open>avgLatency && avgLatency < bestLatency\<close> fails for \<open>null\<close> and for \<open>0\<close>.
\<close>

definition selectByLatency :: "manager \<Rightarrow> string list \<Rightarrow> string option" where
  "selectByLatency m regionIds =
    fst (foldl
      (\<lambda>(bestRegion, bestLatency) rid.
         (case getAverageLatency m rid of
            None \<Rightarrow> (bestRegion, bestLatency)
          | Some avgLatency \<Rightarrow>
              if avgLatency \<noteq> 0 \<and> Num avgLatency < bestLatency
              then (Some rid, Num avgLatency)
              else (bestRegion, bestLatency)))
      (case regionIds of [] \<Rightarrow> None | rid # _ \<Rightarrow> Some rid, Infinity)
      regionIds)"

definition healthyRegionIds :: "manager \<Rightarrow> string list" where
  "healthyRegionIds m = map fst (filter (\<lambda>(rid, h). healthy h) (regionHealth m))"

text \<open>
  \<open>userCountry\<close> is \<open>None\<close> for \<open>null\<close> or \<open>undefined\<close>; the empty string is falsy as
  well. For a country that names an inherited property of \<open>GEO_REGIONS\<close> the guard
  is truthy and the call of \<open>.filter\<close> on that value throws a \<open>TypeError\<close>.
  \<open>clientIP\<close> is not read.
\<close>

definition getBestRegion ::
    "manager \<Rightarrow> string option \<Rightarrow> string option \<Rightarrow> failure + string option" where
  "getBestRegion m clientIP userCountry =
    (let healthyRegions = healthyRegionIds m
     in if length healthyRegions = 0 then Inr (Some (currentRegion m))
        else
          (case userCountry of
             None \<Rightarrow> Inr (selectByLatency m healthyRegions)
           | Some country \<Rightarrow>
               if country = [] then Inr (selectByLatency m healthyRegions)
               else
                 (case map_of GEO_REGIONS country of
                    Some geo \<Rightarrow>
                      (let preferredRegions = filter (\<lambda>rid. rid \<in> set healthyRegions) geo
                       in if length preferredRegions > 0
                          then Inr (selectByLatency m preferredRegions)
                          else Inr (selectByLatency m healthyRegions))
                  | None \<Rightarrow>
                      if country \<in> set object_prototype_keys then Inl TypeError
                      else Inr (selectByLatency m healthyRegions))))"

text \<open>
  The comparator of \<open>getFailoverRegions\<close> is \<open>latencyA - latencyB\<close>, where a latency
  is \<open>getAverageLatency(..) || Infinity\<close>: \<open>Infinity\<close> for a \<open>null\<close> average and for
  the average \<open>0\<close>. Its sign compares the two latencies; for two infinite latencies
  it is \<open>NaN\<close>, which \<open>Array.prototype.sort\<close> takes as \<open>0\<close>. The sort is stable, so it
  is the stable sort by that latency, \<open>sort_key\<close>.
\<close>

definition sortLatency :: "manager \<Rightarrow> string \<Rightarrow> number" where
  "sortLatency m rid =
    (case getAverageLatency m rid of
       None \<Rightarrow> Infinity
     | Some avg \<Rightarrow> if avg = 0 then Infinity else Num avg)"

definition isHealthy :: "manager \<Rightarrow> string \<Rightarrow> bool" where
  "isHealthy m rid = (case map_of (regionHealth m) rid of None \<Rightarrow> False | Some h \<Rightarrow> healthy h)"

definition getFailoverRegions :: "manager \<Rightarrow> string option \<Rightarrow> string list" where
  "getFailoverRegions m excludeRegion =
    sort_key (sortLatency m)
      (filter (isHealthy m)
        (filter (\<lambda>rid. Some rid \<noteq> excludeRegion) (map fst REGIONS)))"

subsection \<open>Failover executor\<close>

record options =
  clientIP :: "string option"
  userCountry :: "string option"

record success =
  data :: string
  region :: string
  latency_ms :: int
  attempts :: nat
  status_code :: nat

text \<open>
  The \<open>catch\<close> block of one attempt, number \<open>n\<close>: a response with a status of 500 or
  more marks the region's health record, if there is one, and every failure is pushed to
  the failover history, which is then cut back to 100 entries.
\<close>

definition request_failed ::
    "manager \<Rightarrow> string \<Rightarrow> nat \<Rightarrow> nat option \<Rightarrow> string \<Rightarrow> string \<Rightarrow> manager" where
  "request_failed m rid n response message now =
    (let m1 =
           (case response of
              None \<Rightarrow> m
            | Some st \<Rightarrow>
                if st \<ge> 500 then
                  (case map_of (regionHealth m) rid of
                     None \<Rightarrow> m
                   | Some h \<Rightarrow>
                       m\<lparr>regionHealth :=
                           AList.update rid (h\<lparr>healthy := False, lastError := Some message\<rparr>)
                             (regionHealth m)\<rparr>)
                else m);
         history = failoverHistory m1 @
           [\<lparr>timestamp = now, fromRegion = rid, event_error = message, attempt = n\<rparr>];
         history = (if length history > 100 then tl history else history)
     in m1\<lparr>failoverHistory := history\<rparr>)"

text \<open>
  The loop over \<open>regionOrder\<close>, with the counter \<open>attempts\<close> as \<open>n\<close> and the message
  of \<open>lastError\<close> as \<open>lastErr\<close> (\<open>None\<close> while it is \<open>null\<close>). \<open>net rid k\<close> is the
  reply of the transport to the request this call sends to region \<open>rid\<close> with the
  header \<open>X-Attempt: k\<close>. The result is what the call returns or throws, the manager
  afterwards, and the requests that were sent, in order, each with its region and its
  attempt number; the endpoint and the other options of the call are part of what \<open>net\<close>
  answers. \<open>maxRetries\<close> is a natural number. \<open>REGIONS[regionId]\<close> is truthy for the
  configured regions and for the inherited properties.
\<close>

definition regionConfigured :: "string option \<Rightarrow> bool" where
  "regionConfigured candidate =
    (case candidate of
       None \<Rightarrow> False
     | Some rid \<Rightarrow> rid \<in> set (map fst REGIONS) \<or> rid \<in> set object_prototype_keys)"

fun tryRegions ::
    "(string \<Rightarrow> nat \<Rightarrow> reply) \<Rightarrow> nat \<Rightarrow> manager \<Rightarrow> nat \<Rightarrow> string option \<Rightarrow> string option list
      \<Rightarrow> (failure + success) \<times> manager \<times> (string \<times> nat) list" where
  "tryRegions net maxRetries m n lastErr [] =
     (Inl (AllRegionsFailed n lastErr), m, [])"
| "tryRegions net maxRetries m n lastErr (candidate # rest) =
     (if n \<ge> maxRetries then (Inl (AllRegionsFailed n lastErr), m, [])
      else if \<not> regionConfigured candidate
        then tryRegions net maxRetries m n lastErr rest
      else
        (case candidate of
           None \<Rightarrow> tryRegions net maxRetries m n lastErr rest
         | Some rid \<Rightarrow>
             if \<not> isHealthy m rid then tryRegions net maxRetries m n lastErr rest
             else
               (let rp = net rid (n + 1)
                in case outcome rp of
                     Resolved st body \<Rightarrow>
                       (Inr \<lparr>data = body, region = rid, latency_ms = Math_round (elapsed rp),
                             attempts = n + 1, status_code = st\<rparr>,
                        updateLatencyCache m rid (elapsed rp),
                        [(rid, n + 1)])
                   | Rejected st message \<Rightarrow>
                       (case tryRegions net maxRetries
                               (request_failed m rid (n + 1) st message (clock rp))
                               (n + 1) (Some message) rest of
                          (res, m', sent) \<Rightarrow> (res, m', (rid, n + 1) # sent)))))"

definition regionOrder :: "manager \<Rightarrow> string option \<Rightarrow> string option list" where
  "regionOrder m preferredRegion = preferredRegion # map Some (getFailoverRegions m preferredRegion)"

definition executeWithFailover ::
    "(string \<Rightarrow> nat \<Rightarrow> reply) \<Rightarrow> manager \<Rightarrow> options \<Rightarrow> nat
      \<Rightarrow> (failure + success) \<times> manager \<times> (string \<times> nat) list" where
  "executeWithFailover net m opts maxRetries =
    (case getBestRegion m (clientIP opts) (userCountry opts) of
       Inl e \<Rightarrow> (Inl e, m, [])
     | Inr preferredRegion \<Rightarrow>
         tryRegions net maxRetries m 0 None (regionOrder m preferredRegion))"

subsection \<open>Notions used in the statements\<close>

text \<open>
  A candidate the loop passes over without sending a request: \<open>undefined\<close>, a region
  without configuration, or a region whose health record is missing or not healthy.
\<close>

definition skipped :: "manager \<Rightarrow> string option \<Rightarrow> bool" where
  "skipped m candidate =
    (case candidate of None \<Rightarrow> True
     | Some rid \<Rightarrow> \<not> regionConfigured candidate \<or> \<not> isHealthy m rid)"

text \<open>
  The candidates that follow region \<open>rid\<close> in the order of a call, and the first of them that
  is not skipped: the region the next request goes to.
\<close>

definition candidates_after :: "manager \<Rightarrow> options \<Rightarrow> string \<Rightarrow> string option list" where
  "candidates_after m opts rid =
    (case getBestRegion m (clientIP opts) (userCountry opts) of
       Inl e \<Rightarrow> []
     | Inr preferredRegion \<Rightarrow>
         tl (dropWhile (\<lambda>c. c \<noteq> Some rid) (regionOrder m preferredRegion)))"

definition next_candidate :: "manager \<Rightarrow> options \<Rightarrow> string \<Rightarrow> string option" where
  "next_candidate m opts rid =
    (case find (\<lambda>c. \<not> skipped m c) (candidates_after m opts rid) of
       Some (Some next_rid) \<Rightarrow> Some next_rid
     | _ \<Rightarrow> None)"

text \<open>The message of the error a rejected request throws.\<close>

definition error_message :: "outcome \<Rightarrow> string option" where
  "error_message out = (case out of Resolved st body \<Rightarrow> None | Rejected st message \<Rightarrow> Some message)"

text \<open>The events the rejected requests among \<open>sent\<close> push to the failover history.\<close>

definition failure_events :: "(string \<Rightarrow> nat \<Rightarrow> reply) \<Rightarrow> (string \<times> nat) list \<Rightarrow> failover_event list" where
  "failure_events net sent =
    concat (map (\<lambda>(rid, k).
      (case outcome (net rid k) of
         Resolved st body \<Rightarrow> []
       | Rejected st message \<Rightarrow>
           [\<lparr>timestamp = clock (net rid k), fromRegion = rid, event_error = message,
             attempt = k\<rparr>])) sent)"

text \<open>
  What one sent request does to the manager once it has settled: the success path records
  the latency, the \<open>catch\<close> block records the failure.
\<close>

definition settle :: "(string \<Rightarrow> nat \<Rightarrow> reply) \<Rightarrow> manager \<Rightarrow> string \<times> nat \<Rightarrow> manager" where
  "settle net m req =
    (case req of (rid, k) \<Rightarrow>
      (case outcome (net rid k) of
         Resolved st body \<Rightarrow> updateLatencyCache m rid (elapsed (net rid k))
       | Rejected st message \<Rightarrow> request_failed m rid k st message (clock (net rid k))))"

text \<open>The three parts of what a call of \<open>executeWithFailover\<close> yields.\<close>

definition call_result :: "'a \<times> manager \<times> (string \<times> nat) list \<Rightarrow> 'a" where
  "call_result run = fst run"

definition call_manager :: "'a \<times> manager \<times> (string \<times> nat) list \<Rightarrow> manager" where
  "call_manager run = fst (snd run)"

definition call_requests :: "'a \<times> manager \<times> (string \<times> nat) list \<Rightarrow> (string \<times> nat) list" where
  "call_requests run = snd (snd run)"

text \<open>
  The average latency of a region as a number that may be \<open>Infinity\<close>: \<open>Infinity\<close> when
  there is no sample.
\<close>

definition averageOrInfinity :: "manager \<Rightarrow> string \<Rightarrow> number" where
  "averageOrInfinity m rid =
    (case getAverageLatency m rid of None \<Rightarrow> Infinity | Some avg \<Rightarrow> Num avg)"

text \<open>
  The regions \<open>getBestRegion\<close> selects from when some region is healthy: the healthy
  regions of the country's list in \<open>GEO_REGIONS\<close>, in the order of that list, when there
  is a country, it has a list and one of its regions is healthy; otherwise all healthy
  regions, in the order of the health map.
\<close>

definition candidatePool :: "manager \<Rightarrow> string option \<Rightarrow> string list" where
  "candidatePool m country =
    (let healthyRegions = healthyRegionIds m
     in case country of
          None \<Rightarrow> healthyRegions
        | Some c \<Rightarrow>
            (case map_of GEO_REGIONS c of
               None \<Rightarrow> healthyRegions
             | Some geo \<Rightarrow>
                 (let preferredRegions = filter (\<lambda>rid. rid \<in> set healthyRegions) geo
                  in if c \<noteq> [] \<and> length preferredRegions > 0 then preferredRegions
                     else healthyRegions)))"

text \<open>The manager after a sequence of calls, each with its transport and its arguments.\<close>

definition after_calls ::
    "manager \<Rightarrow> ((string \<Rightarrow> nat \<Rightarrow> reply) \<times> options \<times> nat) list \<Rightarrow> manager" where
  "after_calls m calls =
     foldl (\<lambda>m (net, opts, maxRetries). call_manager (executeWithFailover net m opts maxRetries))
       m calls"

subsection \<open>Example replies and managers\<close>

text \<open>A response with the given status after the given time, and a rejected request.\<close>

definition replied :: "nat \<Rightarrow> rat \<Rightarrow> reply" where
  "replied st ms = \<lparr>outcome = Resolved st ''{}'', elapsed = ms, clock = ''2026-01-01T00:00:00.000Z''\<rparr>"

definition failed_with :: "nat option \<Rightarrow> string \<Rightarrow> reply" where
  "failed_with st message =
     \<lparr>outcome = Rejected st message, elapsed = 5, clock = ''2026-01-01T00:00:30.000Z''\<rparr>"

text \<open>
  Probes: every probe times out; the probe of us-east-1 times out and the others are
  answered in 120 ms.
\<close>

definition all_timeout :: "string \<Rightarrow> reply" where
  "all_timeout rid = failed_with None ''timeout of 5000ms exceeded''"

definition east_down :: "string \<Rightarrow> reply" where
  "east_down rid =
     (if rid = ''us-east-1'' then failed_with None ''timeout of 5000ms exceeded''
      else replied 200 120)"

text \<open>
  The manager after a first tick in which every probe is answered with 200 (us-east-1 in
  50 ms, ap-southeast-1 in 700 ms, the two others in 100 ms); after a first tick in
  which every probe times out; and after a first tick in which only the probe of
  us-west-2 is answered, with a measured latency of 0.
\<close>

definition all_up :: manager where
  "all_up = checkAllRegionsHealth
     (\<lambda>rid. if rid = ''us-east-1'' then replied 200 50
            else if rid = ''ap-southeast-1'' then replied 200 700 else replied 200 100)
     REGIONS (constructed ''us-east-1'')"

definition all_down :: manager where
  "all_down = checkAllRegionsHealth all_timeout REGIONS (constructed ''us-east-1'')"

definition sampled_zero :: manager where
  "sampled_zero = checkAllRegionsHealth
     (\<lambda>rid. if rid = ''us-west-2'' then replied 200 0
            else failed_with None ''timeout of 5000ms exceeded'')
     REGIONS (constructed ''us-east-1'')"

text \<open>
  The manager after a first tick in which every probe is answered with 200 in 100 ms,
  the probes settling in the order of \<open>REGIONS\<close>, and the same with the probes settling
  in the reverse order.
\<close>

definition tied :: manager where
  "tied = checkAllRegionsHealth (\<lambda>rid. replied 200 100) REGIONS (constructed ''us-east-1'')"

definition tied_reverse :: manager where
  "tied_reverse =
     checkAllRegionsHealth (\<lambda>rid. replied 200 100) (rev REGIONS) (constructed ''us-east-1'')"


text \<open>The manager \<open>all_up\<close> with a failover history that is full.\<close>

definition old_event :: failover_event where
  "old_event = \<lparr>timestamp = ''2025-12-31T23:59:00.000Z'', fromRegion = ''eu-west-1'',
     event_error = ''Request failed with status code 502'', attempt = 1\<rparr>"

definition busy :: manager where
  "busy = all_up\<lparr>failoverHistory := replicate 100 old_event\<rparr>"

text \<open>
  A call without a geography hint, and a transport on which every request to us-east-1
  is rejected, with the given response status and message, and every other request is
  answered with 200 in 80 ms.
\<close>

definition no_hint :: options where
  "no_hint = \<lparr>clientIP = None, userCountry = None\<rparr>"

definition east_fails :: "nat option \<Rightarrow> string \<Rightarrow> string \<Rightarrow> nat \<Rightarrow> reply" where
  "east_fails response message rid k =
     (if rid = ''us-east-1'' then failed_with response message else replied 200 80)"

section \<open>Properties of the latency cache\<close>

lemma last_n_snoc_bounded:
  "length xs \<le> n \<Longrightarrow> 0 < n \<Longrightarrow>
     (if length (xs @ [x]) > n then tl (xs @ [x]) else xs @ [x]) = last_n n (xs @ [x])"
  by (cases xs) (auto simp: last_n_def Suc_diff_le)

lemma last_n_last_n_snoc: "0 < n \<Longrightarrow> last_n n (last_n n xs @ [x]) = last_n n (xs @ [x])"
proof (cases "length xs \<le> n")
  case True
  then show ?thesis by (simp add: last_n_def)
next
  case False
  assume "0 < n"
  with False have "Suc (length xs) - n = Suc (length xs - n)" "length xs - (length xs - n) = n"
    by arith+
  with False \<open>0 < n\<close> show ?thesis by (simp add: last_n_def)
qed

lemma last_n_eq_Nil: "last_n n xs = [] \<longleftrightarrow> xs = [] \<or> n = 0"
  by (cases xs) (auto simp: last_n_def)

lemma length_last_n: "length (last_n n xs) = min n (length xs)"
  by (auto simp: last_n_def)

lemma last_n_id: "length xs \<le> n \<Longrightarrow> last_n n xs = xs"
  by (simp add: last_n_def)

lemma set_last_n_append:
  "length ys \<le> n \<Longrightarrow> set ys \<subseteq> set (last_n n (xs @ ys))"
proof -
  assume "length ys \<le> n"
  then have "length (xs @ ys) - n \<le> length xs" by simp
  then have "drop (length (xs @ ys) - n) (xs @ ys) = drop (length (xs @ ys) - n) xs @ ys"
    by simp
  then show ?thesis by (simp add: last_n_def)
qed

lemma window_push:
  assumes "0 < n"
  shows "(if length (last_n n xs @ [x]) > n then tl (last_n n xs @ [x]) else last_n n xs @ [x])
           = last_n n (xs @ [x])"
proof -
  have "length (last_n n xs) \<le> n" by (simp add: length_last_n)
  from last_n_snoc_bounded [OF this assms] show ?thesis
    by (simp only: last_n_last_n_snoc [OF assms])
qed

lemma window_update_same:
  assumes "latencyCache m rid = Some (last_n 10 xs)"
  shows "latencyCache (updateLatencyCache m rid x) rid = Some (last_n 10 (xs @ [x]))"
proof -
  have "length (last_n 10 xs) \<le> 10" by (simp add: length_last_n)
  then have "(if length (last_n 10 xs @ [x]) > 10 then tl (last_n 10 xs @ [x])
              else last_n 10 xs @ [x]) = last_n 10 (last_n 10 xs @ [x])"
    by (rule last_n_snoc_bounded) simp
  then show ?thesis
    using assms by (simp add: updateLatencyCache_def Let_def last_n_last_n_snoc)
qed

lemma window_update_first:
  "latencyCache m rid = None \<Longrightarrow> latencyCache (updateLatencyCache m rid x) rid = Some [x]"
  by (simp add: updateLatencyCache_def)

lemma window_update_other:
  "rid' \<noteq> rid \<Longrightarrow> latencyCache (updateLatencyCache m rid' x) rid = latencyCache m rid"
  by (simp add: updateLatencyCache_def Let_def)

lemma record_all_snoc:
  "record_all m (samples @ [(rid, x)]) = updateLatencyCache (record_all m samples) rid x"
  by (simp add: record_all_def)

lemma window_record_all:
  "latencyCache (record_all (constructed home) samples) rid =
     (if samples_of rid samples = [] then None else Some (last_n 10 (samples_of rid samples)))"
proof (induction samples rule: rev_induct)
  case Nil
  show ?case by (simp add: record_all_def constructed_def samples_of_def)
next
  case (snoc p samples)
  obtain rid' x where p: "p = (rid', x)" by (cases p)
  show ?case
  proof (cases "rid' = rid")
    case False
    then show ?thesis
      using snoc by (simp add: p record_all_snoc window_update_other samples_of_def)
  next
    case True
    show ?thesis
    proof (cases "samples_of rid samples = []")
      case True
      with snoc \<open>rid' = rid\<close> show ?thesis
        by (simp add: p record_all_snoc window_update_first samples_of_def last_n_def)
    next
      case False
      with snoc have "latencyCache (record_all (constructed home) samples) rid =
          Some (last_n 10 (samples_of rid samples))" by simp
      from window_update_same [OF this] \<open>rid' = rid\<close> show ?thesis
        by (simp add: p record_all_snoc samples_of_def)
    qed
  qed
qed

lemma foldl_plus_sum_list: "foldl (\<lambda>sum lat. sum + lat) a xs = a + sum_list (xs :: rat list)"
  by (induction xs arbitrary: a) auto

lemma regionHealth_updateLatencyCache [simp]:
  "regionHealth (updateLatencyCache m rid x) = regionHealth m"
  by (simp add: updateLatencyCache_def Let_def)

lemma failoverHistory_updateLatencyCache [simp]:
  "failoverHistory (updateLatencyCache m rid x) = failoverHistory m"
  by (simp add: updateLatencyCache_def Let_def)

lemma latencyCache_regionHealth_update [simp]:
  "latencyCache (updateLatencyCache (m\<lparr>regionHealth := rh\<rparr>) rid x) rid
     = latencyCache (updateLatencyCache m rid x) rid"
  by (simp add: updateLatencyCache_def Let_def)

lemma updateLatencyCache_window_cong:
  "latencyCache m' rid = latencyCache m rid \<Longrightarrow>
     latencyCache (updateLatencyCache m' rid x) rid = latencyCache (updateLatencyCache m rid x) rid"
  by (simp add: updateLatencyCache_def Let_def)

text \<open>
  Claim C5. The average of a region is null as long as no sample has been recorded for it
  (in particular right after construction), and after any sequence of recorded samples
  it is the arithmetic mean of the last ten samples recorded for that region (of all of
  them while there are fewer than ten): the older ones have been dropped from the front
  of the window.
\<close>

theorem getAverageLatency_rolling_mean:
  "getAverageLatency (record_all (constructed home) samples) rid =
     (let window = last_n 10 (samples_of rid samples)
      in if samples_of rid samples = [] then None
         else Some (sum_list window / of_nat (length window)))"
proof (cases "samples_of rid samples = []")
  case True
  then show ?thesis by (simp add: getAverageLatency_def window_record_all)
next
  case False
  then have "last_n 10 (samples_of rid samples) \<noteq> []"
    by (simp add: last_n_eq_Nil)
  with False show ?thesis
    by (simp add: getAverageLatency_def window_record_all Let_def foldl_plus_sum_list)
qed

text \<open>
  An instance: of eleven samples for us-east-1 the last ten, 2 to 11, are averaged; a
  sample for another region leaves the average \<open>null\<close>.
\<close>

theorem getAverageLatency_rolling_mean_witness:
  "getAverageLatency
     (record_all (constructed ''us-east-1'')
        [(''us-east-1'', 1), (''us-east-1'', 2), (''us-east-1'', 3), (''eu-west-1'', 40),
         (''us-east-1'', 4), (''us-east-1'', 5), (''us-east-1'', 6), (''us-east-1'', 7),
         (''us-east-1'', 8), (''us-east-1'', 9), (''us-east-1'', 10), (''us-east-1'', 11)])
     ''us-east-1'' = Some (13 / 2)
   \<and> getAverageLatency (record_all (constructed ''us-east-1'') [(''eu-west-1'', 40)])
     ''us-east-1'' = None"
  using getAverageLatency_rolling_mean [of "''us-east-1''"
        "[(''us-east-1'', 1), (''us-east-1'', 2), (''us-east-1'', 3), (''eu-west-1'', 40),
         (''us-east-1'', 4), (''us-east-1'', 5), (''us-east-1'', 6), (''us-east-1'', 7),
         (''us-east-1'', 8), (''us-east-1'', 9), (''us-east-1'', 10), (''us-east-1'', 11)]"
        "''us-east-1''"]
    getAverageLatency_rolling_mean [of "''us-east-1''" "[(''eu-west-1'', 40)]" "''us-east-1''"]
  by (simp add: samples_of_def last_n_def)

section \<open>The example managers, evaluated\<close>

lemma Math_round_of_int: "Math_round (of_int n) = n"
  unfolding Math_round_def by (rule floor_unique) simp_all

lemma Math_round_numeral [simp]: "Math_round (numeral k) = numeral k"
  using Math_round_of_int [of "numeral k"] by simp

lemma all_up_health:
  "regionHealth all_up =
    [(''us-east-1'', \<lparr>regionId = ''us-east-1'', status = ''healthy'', latency = Some 50,
        lastCheck = ''2026-01-01T00:00:00.000Z'', responseTime = Some 50, statusCode = Some 200,
        healthy = True, error = None, lastError = None\<rparr>),
     (''us-west-2'', \<lparr>regionId = ''us-west-2'', status = ''healthy'', latency = Some 100,
        lastCheck = ''2026-01-01T00:00:00.000Z'', responseTime = Some 100, statusCode = Some 200,
        healthy = True, error = None, lastError = None\<rparr>),
     (''eu-west-1'', \<lparr>regionId = ''eu-west-1'', status = ''healthy'', latency = Some 100,
        lastCheck = ''2026-01-01T00:00:00.000Z'', responseTime = Some 100, statusCode = Some 200,
        healthy = True, error = None, lastError = None\<rparr>),
     (''ap-southeast-1'', \<lparr>regionId = ''ap-southeast-1'', status = ''healthy'', latency = Some 700,
        lastCheck = ''2026-01-01T00:00:00.000Z'', responseTime = Some 700, statusCode = Some 200,
        healthy = True, error = None, lastError = None\<rparr>)]"
  by (simp add: all_up_def checkAllRegionsHealth_def REGIONS_def constructed_def
      probe_settled_def replied_def updateLatencyCache_def)

lemma all_up_average:
  "getAverageLatency all_up rid =
     (if rid = ''us-east-1'' then Some 50
      else if rid = ''us-west-2'' \<or> rid = ''eu-west-1'' then Some 100
      else if rid = ''ap-southeast-1'' then Some 700 else None)"
  by (simp add: all_up_def checkAllRegionsHealth_def REGIONS_def constructed_def
      probe_settled_def replied_def updateLatencyCache_def getAverageLatency_def)

lemma all_up_history: "failoverHistory all_up = []"
  by (simp add: all_up_def checkAllRegionsHealth_def REGIONS_def constructed_def
      probe_settled_def replied_def updateLatencyCache_def)

lemma all_up_isHealthy:
  "isHealthy all_up rid = (rid \<in> {''us-east-1'', ''us-west-2'', ''eu-west-1'', ''ap-southeast-1''})"
  by (simp add: isHealthy_def all_up_health)

lemma all_up_best: "getBestRegion all_up ip None = Inr (Some ''us-east-1'')"
  by (simp add: getBestRegion_def healthyRegionIds_def all_up_health selectByLatency_def
      all_up_average)

lemma all_up_failover:
  "getFailoverRegions all_up (Some ''us-east-1'') = [''us-west-2'', ''eu-west-1'', ''ap-southeast-1'']"
  by (simp add: getFailoverRegions_def REGIONS_def isHealthy_def all_up_health sortLatency_def
      all_up_average)

lemma all_down_health:
  "regionHealth all_down =
    map (\<lambda>rid. (rid, \<lparr>regionId = rid, status = ''unhealthy'', latency = None,
        lastCheck = ''2026-01-01T00:00:30.000Z'', responseTime = None, statusCode = None,
        healthy = False, error = Some ''timeout of 5000ms exceeded'', lastError = None\<rparr>))
      [''us-east-1'', ''us-west-2'', ''eu-west-1'', ''ap-southeast-1'']"
  by (simp add: all_down_def all_timeout_def checkAllRegionsHealth_def REGIONS_def
      constructed_def probe_settled_def failed_with_def)

lemma all_down_current: "currentRegion all_down = ''us-east-1''"
  by (simp add: all_down_def all_timeout_def checkAllRegionsHealth_def REGIONS_def
      constructed_def probe_settled_def failed_with_def)

lemma sampled_zero_average:
  "getAverageLatency sampled_zero rid = (if rid = ''us-west-2'' then Some 0 else None)"
  by (simp add: sampled_zero_def checkAllRegionsHealth_def REGIONS_def constructed_def
      probe_settled_def replied_def failed_with_def updateLatencyCache_def getAverageLatency_def)

section \<open>Properties of the health check\<close>

lemma probe_settled_other:
  "rid \<noteq> fst entry \<Longrightarrow>
     map_of (regionHealth (probe_settled m entry rp)) rid = map_of (regionHealth m) rid
     \<and> latencyCache (probe_settled m entry rp) rid = latencyCache m rid"
  by (cases entry)
     (auto simp: probe_settled_def update_conv' Let_def window_update_other
       split: outcome.splits)

lemma checkAllRegionsHealth_other:
  "rid \<notin> fst ` set settled \<Longrightarrow>
     map_of (regionHealth (checkAllRegionsHealth probes settled m)) rid = map_of (regionHealth m) rid
     \<and> latencyCache (checkAllRegionsHealth probes settled m) rid = latencyCache m rid"
  unfolding checkAllRegionsHealth_def
  by (induction settled arbitrary: m) (auto simp: probe_settled_other)

lemma probe_settled_same:
  "(case outcome rp of
      Resolved st body \<Rightarrow>
        map_of (regionHealth (probe_settled m (rid, config) rp)) rid =
          Some \<lparr>regionId = rid,
                status = (if st = 200 then ''healthy'' else ''unhealthy''),
                latency = Some (Math_round (elapsed rp)),
                lastCheck = clock rp,
                responseTime = Some (elapsed rp),
                statusCode = Some st,
                healthy = (st = 200 \<and> elapsed rp < of_nat (latencyThreshold config) * 2),
                error = None, lastError = None\<rparr>
        \<and> latencyCache (probe_settled m (rid, config) rp) rid
            = latencyCache (updateLatencyCache m rid (elapsed rp)) rid
    | Rejected response message \<Rightarrow>
        map_of (regionHealth (probe_settled m (rid, config) rp)) rid =
          Some \<lparr>regionId = rid, status = ''unhealthy'', latency = None, lastCheck = clock rp,
                responseTime = None, statusCode = None, healthy = False,
                error = Some message, lastError = None\<rparr>
        \<and> latencyCache (probe_settled m (rid, config) rp) rid = latencyCache m rid)"
  by (simp add: probe_settled_def update_conv' Let_def split: outcome.splits)

lemma distinct_region_ids: "distinct (map fst REGIONS)"
  by (simp add: REGIONS_def)

text \<open>
  Claim C8, as amended. After a tick, for every region: when its probe resolved, the
  health record is the one built from the response, with \<open>healthy\<close> true exactly when
  the status is 200 and the measured latency is below twice the region's threshold, and
  the latency cache has received the sample; when its probe was rejected, the record has
  the status \<open>unhealthy\<close>, \<open>healthy = false\<close>, the error message, and its latency
  reset to \<open>null\<close>, and the latency cache of the region is as before. This holds for
  every order in which the probes settle.
\<close>

theorem health_tick_record:
  assumes "distinct settled" and "set settled = set REGIONS" and "(rid, config) \<in> set REGIONS"
  shows
    "(case outcome (probes rid) of
      Resolved st body \<Rightarrow>
        map_of (regionHealth (checkAllRegionsHealth probes settled m)) rid =
          Some \<lparr>regionId = rid,
                status = (if st = 200 then ''healthy'' else ''unhealthy''),
                latency = Some (Math_round (elapsed (probes rid))),
                lastCheck = clock (probes rid),
                responseTime = Some (elapsed (probes rid)),
                statusCode = Some st,
                healthy = (st = 200
                  \<and> elapsed (probes rid) < of_nat (latencyThreshold config) * 2),
                error = None, lastError = None\<rparr>
        \<and> latencyCache (checkAllRegionsHealth probes settled m) rid
            = latencyCache (updateLatencyCache m rid (elapsed (probes rid))) rid
    | Rejected response message \<Rightarrow>
        map_of (regionHealth (checkAllRegionsHealth probes settled m)) rid =
          Some \<lparr>regionId = rid, status = ''unhealthy'', latency = None,
                lastCheck = clock (probes rid),
                responseTime = None, statusCode = None, healthy = False,
                error = Some message, lastError = None\<rparr>
        \<and> latencyCache (checkAllRegionsHealth probes settled m) rid = latencyCache m rid)"
proof -
  have inj: "inj_on fst (set REGIONS)"
    using distinct_region_ids by (simp add: distinct_map)
  with assms(1,2) have keys: "distinct (map fst settled)"
    by (simp add: distinct_map)
  from assms(2,3) obtain pre post where settled: "settled = pre @ (rid, config) # post"
    by (metis in_set_conv_decomp)
  with keys have out: "rid \<notin> fst ` set pre" "rid \<notin> fst ` set post"
    by auto
  define m1 where "m1 = checkAllRegionsHealth probes pre m"
  define m2 where "m2 = probe_settled m1 (rid, config) (probes rid)"
  have whole: "checkAllRegionsHealth probes settled m = checkAllRegionsHealth probes post m2"
    by (simp add: checkAllRegionsHealth_def settled m1_def m2_def)
  have before: "map_of (regionHealth m1) rid = map_of (regionHealth m) rid"
    "latencyCache m1 rid = latencyCache m rid"
    using checkAllRegionsHealth_other [OF out(1), of probes m] by (simp_all add: m1_def)
  have after: "map_of (regionHealth (checkAllRegionsHealth probes post m2)) rid
      = map_of (regionHealth m2) rid"
    "latencyCache (checkAllRegionsHealth probes post m2) rid = latencyCache m2 rid"
    using checkAllRegionsHealth_other [OF out(2), of probes m2] by simp_all
  from probe_settled_same [where rp = "probes rid" and m = m1 and rid = rid and config = config]
  show ?thesis
    unfolding whole after m2_def [symmetric]
    using before(2) updateLatencyCache_window_cong [OF before(2)]
    by (auto split: outcome.splits)
qed

text \<open>
  The claim as stated fails in its last part: a rejected probe resets the latency of the
  record, here from 50 to \<open>null\<close>.
\<close>

theorem health_tick_record_counterexample:
  "outcome (all_timeout ''us-east-1'') = Rejected None ''timeout of 5000ms exceeded''
   \<and> map_option latency (map_of (regionHealth all_up) ''us-east-1'') = Some (Some 50)
   \<and> map_option latency
        (map_of (regionHealth (checkAllRegionsHealth all_timeout REGIONS all_up)) ''us-east-1'')
      = Some None"
  by (simp add: all_up_health)
     (simp add: checkAllRegionsHealth_def REGIONS_def probe_settled_def all_timeout_def
       failed_with_def update_conv')

text \<open>
  An instance: the probes settle in the reverse order; the probe of us-east-1 times out
  and the probe of us-west-2 is answered in 120 ms.
\<close>

theorem health_tick_record_witness:
  "distinct (rev REGIONS) \<and> set (rev REGIONS) = set REGIONS
   \<and> (''us-east-1'', the (map_of REGIONS ''us-east-1'')) \<in> set REGIONS
   \<and> (''us-west-2'', the (map_of REGIONS ''us-west-2'')) \<in> set REGIONS
   \<and> map_of (regionHealth (checkAllRegionsHealth east_down (rev REGIONS) all_up)) ''us-east-1''
      = Some \<lparr>regionId = ''us-east-1'', status = ''unhealthy'', latency = None,
              lastCheck = ''2026-01-01T00:00:30.000Z'', responseTime = None, statusCode = None,
              healthy = False, error = Some ''timeout of 5000ms exceeded'', lastError = None\<rparr>
   \<and> map_of (regionHealth (checkAllRegionsHealth east_down (rev REGIONS) all_up)) ''us-west-2''
      = Some \<lparr>regionId = ''us-west-2'', status = ''healthy'', latency = Some 120,
              lastCheck = ''2026-01-01T00:00:00.000Z'', responseTime = Some 120,
              statusCode = Some 200, healthy = True, error = None, lastError = None\<rparr>
   \<and> getAverageLatency (checkAllRegionsHealth east_down (rev REGIONS) all_up) ''us-west-2''
      = Some 110"
proof -
  have h1: "distinct (rev REGIONS)" by (simp add: REGIONS_def)
  have h2: "set (rev REGIONS) = set REGIONS" by simp
  have h3: "(''us-east-1'', the (map_of REGIONS ''us-east-1'')) \<in> set REGIONS"
    by (simp add: REGIONS_def)
  have h4: "(''us-west-2'', the (map_of REGIONS ''us-west-2'')) \<in> set REGIONS"
    by (simp add: REGIONS_def)
  have t: "latencyThreshold (the (map_of REGIONS ''us-west-2'')) = 250"
    by (simp add: REGIONS_def)
  have w: "latencyCache all_up ''us-west-2'' = Some [100]"
    by (simp add: all_up_def checkAllRegionsHealth_def REGIONS_def constructed_def
      probe_settled_def replied_def updateLatencyCache_def)
  from health_tick_record [OF h1 h2 h3, of east_down all_up]
  have a: "map_of (regionHealth (checkAllRegionsHealth east_down (rev REGIONS) all_up))
      ''us-east-1''
      = Some \<lparr>regionId = ''us-east-1'', status = ''unhealthy'', latency = None,
              lastCheck = ''2026-01-01T00:00:30.000Z'', responseTime = None, statusCode = None,
              healthy = False, error = Some ''timeout of 5000ms exceeded'', lastError = None\<rparr>"
    by (simp add: east_down_def failed_with_def)
  from health_tick_record [OF h1 h2 h4, of east_down all_up]
  have b: "map_of (regionHealth (checkAllRegionsHealth east_down (rev REGIONS) all_up))
      ''us-west-2''
      = Some \<lparr>regionId = ''us-west-2'', status = ''healthy'', latency = Some 120,
              lastCheck = ''2026-01-01T00:00:00.000Z'', responseTime = Some 120,
              statusCode = Some 200, healthy = True, error = None, lastError = None\<rparr>"
    and c: "latencyCache (checkAllRegionsHealth east_down (rev REGIONS) all_up) ''us-west-2''
      = Some [100, 120]"
    by (simp_all add: east_down_def replied_def t updateLatencyCache_def w)
  from c have d: "getAverageLatency (checkAllRegionsHealth east_down (rev REGIONS) all_up)
      ''us-west-2'' = Some 110"
    by (simp add: getAverageLatency_def)
  from h1 h2 h3 h4 a b d show ?thesis by simp
qed

section \<open>Properties of the region selection\<close>

lemma no_healthy_entry_ids:
  "\<forall>entry \<in> set (regionHealth m). \<not> healthy (snd entry) \<Longrightarrow> healthyRegionIds m = []"
  by (auto simp: healthyRegionIds_def filter_empty_conv)

text \<open>
  Claim C7. When no health record is healthy, \<open>getBestRegion\<close> returns the current
  region, whatever the client address and the country are.
\<close>

theorem getBestRegion_falls_back_to_current:
  assumes "\<forall>entry \<in> set (regionHealth m). \<not> healthy (snd entry)"
  shows "getBestRegion m ip country = Inr (Some (currentRegion m))"
  using no_healthy_entry_ids [OF assms] by (simp add: getBestRegion_def)

text \<open>
  An instance: no region is healthy in \<open>all_down\<close>, and a client from Great Britain is
  sent to the current region.
\<close>

theorem getBestRegion_falls_back_witness:
  "getBestRegion all_down (Some ''203.0.113.7'') (Some ''GB'') = Inr (Some ''us-east-1'')"
  using getBestRegion_falls_back_to_current [of all_down "Some ''203.0.113.7''" "Some ''GB''"]
  by (simp add: all_down_health all_down_current)

lemma distinct_getFailoverRegions: "distinct (getFailoverRegions m ex)"
  by (simp add: getFailoverRegions_def distinct_region_ids)

lemma set_getFailoverRegions:
  "set (getFailoverRegions m ex) =
     {rid \<in> set (map fst REGIONS). Some rid \<noteq> ex \<and> isHealthy m rid}"
  by (auto simp: getFailoverRegions_def)

lemma sortLatency_nonzero:
  "getAverageLatency m rid \<noteq> Some 0 \<Longrightarrow> sortLatency m rid = averageOrInfinity m rid"
  by (auto simp: sortLatency_def averageOrInfinity_def split: option.splits)

lemma Infinity_le [simp]: "Infinity \<le> x \<longleftrightarrow> x = Infinity"
  by (cases x) simp_all

lemma select_step:
  "(case getAverageLatency m rid of
      None \<Rightarrow> (bestRegion, bestLatency)
    | Some avgLatency \<Rightarrow>
        if avgLatency \<noteq> 0 \<and> Num avgLatency < bestLatency
        then (Some rid, Num avgLatency)
        else (bestRegion, bestLatency))
   = (if sortLatency m rid < bestLatency then (Some rid, sortLatency m rid)
      else (bestRegion, bestLatency))"
  by (cases bestLatency) (auto simp: sortLatency_def split: option.splits)

lemma ex_least:
  fixes key :: "'a \<Rightarrow> number"
  assumes "xs \<noteq> []"
  shows "\<exists>z \<in> set xs. \<forall>y \<in> set xs. key z \<le> key y"
proof -
  from assms have "arg_min_list key xs \<in> set xs" by (rule arg_min_list_in)
  moreover have "key (arg_min_list key xs) \<le> key y" if "y \<in> set xs" for y
    using that assms by (simp add: f_arg_min_list_f)
  ultimately show ?thesis by blast
qed

lemma foldl_least:
  fixes key :: "'a \<Rightarrow> number"
  shows "foldl (\<lambda>(br, bl) x. if key x < bl then (Some x, key x) else (br, bl)) (br, bl) xs =
     (case find (\<lambda>x. key x < bl \<and> (\<forall>y \<in> set xs. key x \<le> key y)) xs of
        None \<Rightarrow> (br, bl)
      | Some x \<Rightarrow> (Some x, key x))"
proof (induction xs arbitrary: br bl)
  case Nil
  show ?case by simp
next
  case (Cons x xs)
  show ?case
  proof (cases "key x < bl")
    case True
    show ?thesis
    proof (cases "\<forall>y \<in> set xs. key x \<le> key y")
      case True
      then have "find (\<lambda>z. key z < key x \<and> (\<forall>y \<in> set xs. key z \<le> key y)) xs = None"
        by (auto simp: find_None_iff)
      with True \<open>key x < bl\<close> Cons.IH [of "Some x" "key x"] show ?thesis by simp
    next
      case False
      then obtain y where y: "y \<in> set xs" "key y < key x" by (auto simp: not_le)
      have "find (\<lambda>z. key z < key x \<and> (\<forall>y \<in> set xs. key z \<le> key y)) xs =
          find (\<lambda>z. key z < bl \<and> (\<forall>y \<in> set (x # xs). key z \<le> key y)) xs"
      proof (rule find_cong)
        fix z assume "z \<in> set xs"
        show "(key z < key x \<and> (\<forall>y \<in> set xs. key z \<le> key y)) =
            (key z < bl \<and> (\<forall>y \<in> set (x # xs). key z \<le> key y))"
          using y \<open>key x < bl\<close> by (auto intro: le_less_trans less_trans less_imp_le)
      qed simp
      moreover from y have "xs \<noteq> []" by auto
      from ex_least [OF this, of key] obtain z where
        "z \<in> set xs" "\<forall>y \<in> set xs. key z \<le> key y" by blast
      with y have "\<exists>z \<in> set xs. key z < key x \<and> (\<forall>y \<in> set xs. key z \<le> key y)"
        by (auto intro: le_less_trans)
      then have "find (\<lambda>z. key z < key x \<and> (\<forall>y \<in> set xs. key z \<le> key y)) xs \<noteq> None"
        by (auto simp: find_None_iff)
      ultimately show ?thesis
        using False \<open>key x < bl\<close> Cons.IH [of "Some x" "key x"] by auto
    qed
  next
    case False
    have "find (\<lambda>z. key z < bl \<and> (\<forall>y \<in> set xs. key z \<le> key y)) xs =
          find (\<lambda>z. key z < bl \<and> (\<forall>y \<in> set (x # xs). key z \<le> key y)) xs"
      using False by (intro find_cong) auto
    with False Cons.IH [of br bl] show ?thesis by simp
  qed
qed

lemma less_Infinity: "x < Infinity \<longleftrightarrow> x \<noteq> Infinity"
  by (cases x) simp_all

text \<open>
  \<open>selectByLatency\<close> returns the first of the regions whose latency, as the comparator
  of \<open>getFailoverRegions\<close> reads it, is the least.
\<close>

lemma selectByLatency_first_least:
  "selectByLatency m ids =
     find (\<lambda>rid. \<forall>other \<in> set ids. sortLatency m rid \<le> sortLatency m other) ids"
proof -
  let ?key = "sortLatency m"
  let ?first = "case ids of [] \<Rightarrow> None | rid # _ \<Rightarrow> Some rid"
  let ?least = "\<lambda>rid. \<forall>other \<in> set ids. ?key rid \<le> ?key other"
  have step: "(\<lambda>(bestRegion, bestLatency) rid.
         (case getAverageLatency m rid of
            None \<Rightarrow> (bestRegion, bestLatency)
          | Some avgLatency \<Rightarrow>
              if avgLatency \<noteq> 0 \<and> Num avgLatency < bestLatency
              then (Some rid, Num avgLatency)
              else (bestRegion, bestLatency)))
      = (\<lambda>(br, bl) x. if ?key x < bl then (Some x, ?key x) else (br, bl))"
    by (intro ext) (simp add: select_step split: prod.splits)
  have fold: "selectByLatency m ids =
      fst (case find (\<lambda>x. ?key x < Infinity \<and> ?least x) ids of
             None \<Rightarrow> (?first, Infinity)
           | Some x \<Rightarrow> (Some x, ?key x))"
    unfolding selectByLatency_def step by (simp add: foldl_least)
  show ?thesis
  proof (cases "\<exists>x \<in> set ids. ?key x \<noteq> Infinity")
    case True
    then obtain x where x: "x \<in> set ids" "?key x \<noteq> Infinity" by blast
    have "find (\<lambda>x. ?key x < Infinity \<and> ?least x) ids = find ?least ids"
    proof (rule find_cong)
      fix z assume "z \<in> set ids"
      show "(?key z < Infinity \<and> ?least z) = ?least z"
        using x by (auto simp: less_Infinity)
    qed simp
    moreover from x have "ids \<noteq> []" by auto
    from ex_least [OF this, of ?key] have "find ?least ids \<noteq> None"
      by (auto simp: find_None_iff)
    ultimately show ?thesis
      unfolding fold by (auto split: option.splits)
  next
    case False
    then have all: "?key x = Infinity" if "x \<in> set ids" for x using that by blast
    have "find (\<lambda>x. ?key x < Infinity \<and> ?least x) ids = None"
      by (auto simp: find_None_iff less_Infinity all)
    moreover have "find ?least ids = ?first"
      by (cases ids) (auto simp: all)
    ultimately show ?thesis
      unfolding fold by simp
  qed
qed

lemma getBestRegion_pool:
  assumes "getBestRegion m ip country = Inr preferred" and "healthyRegionIds m \<noteq> []"
  shows "preferred = selectByLatency m (candidatePool m country)"
  using assms
  by (auto simp: getBestRegion_def candidatePool_def Let_def
      split: option.splits if_splits)

lemma sortLatency_averageOrInfinity:
  "\<forall>rid. getAverageLatency m rid \<noteq> Some 0 \<Longrightarrow> sortLatency m = averageOrInfinity m"
  by (auto simp: fun_eq_iff sortLatency_nonzero)

lemma routing_cong:
  assumes "regionHealth m' = regionHealth m" and "currentRegion m' = currentRegion m"
    and "\<forall>rid. getAverageLatency m' rid = getAverageLatency m rid"
  shows "getBestRegion m' ip country = getBestRegion m ip country"
    and "getFailoverRegions m' ex = getFailoverRegions m ex"
proof -
  from assms(3) have avg: "getAverageLatency m' = getAverageLatency m" by (simp add: fun_eq_iff)
  then have sel: "selectByLatency m' = selectByLatency m"
    by (simp add: fun_eq_iff selectByLatency_def)
  from avg have key: "sortLatency m' = sortLatency m"
    by (simp add: fun_eq_iff sortLatency_def)
  from assms(1) have h: "isHealthy m' = isHealthy m" "healthyRegionIds m' = healthyRegionIds m"
    by (simp_all add: fun_eq_iff isHealthy_def healthyRegionIds_def)
  show "getBestRegion m' ip country = getBestRegion m ip country"
    by (simp add: getBestRegion_def sel h assms(2) Let_def split: option.splits)
  show "getFailoverRegions m' ex = getFailoverRegions m ex"
    by (simp add: getFailoverRegions_def key h)
qed

lemma tied_health:
  "regionHealth tied =
     map (\<lambda>rid. (rid, \<lparr>regionId = rid, status = ''healthy'', latency = Some 100,
        lastCheck = ''2026-01-01T00:00:00.000Z'', responseTime = Some 100, statusCode = Some 200,
        healthy = True, error = None, lastError = None\<rparr>))
       [''us-east-1'', ''us-west-2'', ''eu-west-1'', ''ap-southeast-1'']"
  by (simp add: tied_def checkAllRegionsHealth_def REGIONS_def constructed_def
      probe_settled_def replied_def)

lemma tied_reverse_health:
  "regionHealth tied_reverse =
     map (\<lambda>rid. (rid, \<lparr>regionId = rid, status = ''healthy'', latency = Some 100,
        lastCheck = ''2026-01-01T00:00:00.000Z'', responseTime = Some 100, statusCode = Some 200,
        healthy = True, error = None, lastError = None\<rparr>))
       [''ap-southeast-1'', ''eu-west-1'', ''us-west-2'', ''us-east-1'']"
  by (simp add: tied_reverse_def checkAllRegionsHealth_def REGIONS_def constructed_def
      probe_settled_def replied_def)

lemma tied_average:
  "getAverageLatency tied rid =
     (if rid \<in> {''us-east-1'', ''us-west-2'', ''eu-west-1'', ''ap-southeast-1''} then Some 100
      else None)"
  by (simp add: tied_def checkAllRegionsHealth_def REGIONS_def constructed_def
      probe_settled_def replied_def updateLatencyCache_def getAverageLatency_def)

lemma tied_reverse_average:
  "getAverageLatency tied_reverse rid =
     (if rid \<in> {''us-east-1'', ''us-west-2'', ''eu-west-1'', ''ap-southeast-1''} then Some 100
      else None)"
  by (simp add: tied_reverse_def checkAllRegionsHealth_def REGIONS_def constructed_def
      probe_settled_def replied_def updateLatencyCache_def getAverageLatency_def)

lemma all_up_pool: "candidatePool all_up (Some ''US'') = [''us-east-1'', ''us-west-2'']"
  by (simp add: candidatePool_def healthyRegionIds_def all_up_health GEO_REGIONS_def)

text \<open>
  Claim C4, as amended. On a manager in which no region has an average latency of exactly
  0, a routing decision is as follows. The first candidate is the region of least average
  latency among the regions \<open>getBestRegion\<close> selects from, a region without samples
  counting as infinite, and among regions of equal latency the first in the order of
  that selection; when no region is healthy it is the current region. It is followed by
  the other configured regions that are healthy, in ascending order of their average
  latency, regions of equal latency in the order in which \<open>REGIONS\<close> declares them. The
  priority and the identifier of a region play no part. The decision is the same for
  every manager with the same health map, in the same order, the same current region and
  the same averages.
\<close>

theorem routing_decision_order:
  assumes nz: "\<forall>rid. getAverageLatency m rid \<noteq> Some 0"
    and best: "getBestRegion m ip country = Inr preferred"
  shows "preferred =
       (if healthyRegionIds m = [] then Some (currentRegion m)
        else find (\<lambda>rid. \<forall>other \<in> set (candidatePool m country).
                      averageOrInfinity m rid \<le> averageOrInfinity m other)
               (candidatePool m country))
   \<and> regionOrder m preferred = preferred # map Some (getFailoverRegions m preferred)
   \<and> set (getFailoverRegions m preferred) =
       {rid \<in> set (map fst REGIONS). Some rid \<noteq> preferred \<and> isHealthy m rid}
   \<and> sorted (map (averageOrInfinity m) (getFailoverRegions m preferred))
   \<and> (\<forall>l. filter (\<lambda>rid. averageOrInfinity m rid = l) (getFailoverRegions m preferred) =
        filter (\<lambda>rid. Some rid \<noteq> preferred \<and> isHealthy m rid \<and> averageOrInfinity m rid = l)
          (map fst REGIONS))
   \<and> (\<forall>m'. regionHealth m' = regionHealth m \<and> currentRegion m' = currentRegion m
          \<and> (\<forall>rid. getAverageLatency m' rid = getAverageLatency m rid)
        \<longrightarrow> getBestRegion m' ip country = Inr preferred
          \<and> regionOrder m' preferred = regionOrder m preferred)"
proof -
  from nz have key: "sortLatency m = averageOrInfinity m"
    by (rule sortLatency_averageOrInfinity)
  have head: "preferred =
       (if healthyRegionIds m = [] then Some (currentRegion m)
        else find (\<lambda>rid. \<forall>other \<in> set (candidatePool m country).
                      averageOrInfinity m rid \<le> averageOrInfinity m other)
               (candidatePool m country))"
  proof (cases "healthyRegionIds m = []")
    case True
    with best show ?thesis by (simp add: getBestRegion_def)
  next
    case False
    from getBestRegion_pool [OF best False] False show ?thesis
      by (simp add: selectByLatency_first_least key)
  qed
  have sorted: "sorted (map (averageOrInfinity m) (getFailoverRegions m preferred))"
    unfolding key [symmetric] by (simp add: getFailoverRegions_def)
  have ties: "filter (\<lambda>rid. averageOrInfinity m rid = l) (getFailoverRegions m preferred) =
        filter (\<lambda>rid. Some rid \<noteq> preferred \<and> isHealthy m rid \<and> averageOrInfinity m rid = l)
          (map fst REGIONS)" for l
    unfolding key [symmetric] getFailoverRegions_def sort_key_stable by simp
  have same: "getBestRegion m' ip country = Inr preferred
          \<and> regionOrder m' preferred = regionOrder m preferred"
    if "regionHealth m' = regionHealth m" "currentRegion m' = currentRegion m"
      "\<forall>rid. getAverageLatency m' rid = getAverageLatency m rid" for m'
    using routing_cong [OF that] best by (simp add: regionOrder_def)
  then have same: "\<forall>m'. regionHealth m' = regionHealth m \<and> currentRegion m' = currentRegion m
          \<and> (\<forall>rid. getAverageLatency m' rid = getAverageLatency m rid)
        \<longrightarrow> getBestRegion m' ip country = Inr preferred
          \<and> regionOrder m' preferred = regionOrder m preferred"
    by blast
  have order: "regionOrder m preferred = preferred # map Some (getFailoverRegions m preferred)"
    by (simp add: regionOrder_def)
  have members: "set (getFailoverRegions m preferred) =
       {rid \<in> set (map fst REGIONS). Some rid \<noteq> preferred \<and> isHealthy m rid}"
    by (rule set_getFailoverRegions)
  show ?thesis
    apply (intro conjI)
         apply (rule head)
        apply (rule order)
       apply (rule members)
      apply (rule sorted)
     apply (rule allI, rule ties)
    apply (rule same)
    done
qed

text \<open>
  The claim as stated fails at the tie-break: with equal averages us-west-2, of priority
  2, comes before eu-west-1, of priority 1. It fails at the determinism as well: the two
  managers \<open>tied\<close> and \<open>tied_reverse\<close> hold the same health record and the same
  average for every region, and their first candidates differ, since the health map of
  one was filled in the reverse order.
\<close>

theorem routing_decision_order_counterexample:
  "getBestRegion all_up None None = Inr (Some ''us-east-1'')
   \<and> regionOrder all_up (Some ''us-east-1'') =
       [Some ''us-east-1'', Some ''us-west-2'', Some ''eu-west-1'', Some ''ap-southeast-1'']
   \<and> getAverageLatency all_up ''us-west-2'' = Some 100
   \<and> getAverageLatency all_up ''eu-west-1'' = Some 100
   \<and> map_option priority (map_of REGIONS ''us-west-2'') = Some 2
   \<and> map_option priority (map_of REGIONS ''eu-west-1'') = Some 1
   \<and> map_of (regionHealth tied_reverse) = map_of (regionHealth tied)
   \<and> getAverageLatency tied_reverse = getAverageLatency tied
   \<and> getBestRegion tied None None = Inr (Some ''us-east-1'')
   \<and> getBestRegion tied_reverse None None = Inr (Some ''ap-southeast-1'')"
proof -
  have a: "map_of (regionHealth tied_reverse) = map_of (regionHealth tied)"
    by (rule ext) (simp add: tied_health tied_reverse_health)
  have b: "getAverageLatency tied_reverse = getAverageLatency tied"
    by (rule ext) (simp add: tied_average tied_reverse_average)
  have c: "getBestRegion tied None None = Inr (Some ''us-east-1'')"
    by (simp add: getBestRegion_def healthyRegionIds_def tied_health selectByLatency_def
      tied_average)
  have d: "getBestRegion tied_reverse None None = Inr (Some ''ap-southeast-1'')"
    by (simp add: getBestRegion_def healthyRegionIds_def tied_reverse_health selectByLatency_def
      tied_reverse_average)
  have e: "map_option priority (map_of REGIONS ''us-west-2'') = Some 2"
    "map_option priority (map_of REGIONS ''eu-west-1'') = Some 1"
    by (simp_all add: REGIONS_def)
  from a b c d e show ?thesis
    by (simp add: all_up_best regionOrder_def all_up_failover all_up_average)
qed

text \<open>
  An instance: a client from the United States on \<open>all_up\<close>; us-east-1 is the least of
  the two regions of the country, and the two regions of latency 100 follow in the order
  of \<open>REGIONS\<close>.
\<close>

theorem routing_decision_order_witness:
  "list_all (\<lambda>rid. getAverageLatency all_up rid \<noteq> Some 0)
      [''us-east-1'', ''us-west-2'', ''eu-west-1'', ''ap-southeast-1'']
   \<and> getBestRegion all_up None (Some ''US'') = Inr (Some ''us-east-1'')
   \<and> candidatePool all_up (Some ''US'') = [''us-east-1'', ''us-west-2'']
   \<and> regionOrder all_up (Some ''us-east-1'') =
       [Some ''us-east-1'', Some ''us-west-2'', Some ''eu-west-1'', Some ''ap-southeast-1'']
   \<and> sorted (map (averageOrInfinity all_up) [''us-west-2'', ''eu-west-1'', ''ap-southeast-1''])
   \<and> filter (\<lambda>rid. averageOrInfinity all_up rid = Num 100)
         (getFailoverRegions all_up (Some ''us-east-1''))
       = [''us-west-2'', ''eu-west-1'']"
proof -
  have nz: "\<forall>rid. getAverageLatency all_up rid \<noteq> Some 0"
    by (simp add: all_up_average)
  have best: "getBestRegion all_up None (Some ''US'') = Inr (Some ''us-east-1'')"
    by (simp add: getBestRegion_def healthyRegionIds_def all_up_health GEO_REGIONS_def
        selectByLatency_def all_up_average)
  from routing_decision_order [OF nz best]
  have order: "regionOrder all_up (Some ''us-east-1'') =
      Some ''us-east-1'' # map Some (getFailoverRegions all_up (Some ''us-east-1''))"
    and sorted: "sorted (map (averageOrInfinity all_up)
      (getFailoverRegions all_up (Some ''us-east-1'')))"
    and ties: "filter (\<lambda>rid. averageOrInfinity all_up rid = Num 100)
         (getFailoverRegions all_up (Some ''us-east-1'')) =
       filter (\<lambda>rid. Some rid \<noteq> Some ''us-east-1'' \<and> isHealthy all_up rid
           \<and> averageOrInfinity all_up rid = Num 100) (map fst REGIONS)"
    by blast+
  have "filter (\<lambda>rid. Some rid \<noteq> Some ''us-east-1'' \<and> isHealthy all_up rid
           \<and> averageOrInfinity all_up rid = Num 100) (map fst REGIONS)
      = [''us-west-2'', ''eu-west-1'']"
    by (simp add: REGIONS_def all_up_isHealthy averageOrInfinity_def all_up_average)
  with ties have ties': "filter (\<lambda>rid. averageOrInfinity all_up rid = Num 100)
         (getFailoverRegions all_up (Some ''us-east-1'')) = [''us-west-2'', ''eu-west-1'']"
    by simp
  from nz have nz': "list_all (\<lambda>rid. getAverageLatency all_up rid \<noteq> Some 0)
      [''us-east-1'', ''us-west-2'', ''eu-west-1'', ''ap-southeast-1'']"
    by simp
  from order sorted ties' nz' best show ?thesis
    by (simp add: all_up_failover all_up_pool)
qed



text \<open>
  The samples the code records are measured round-trip times. When every sample of a
  region is positive, its average is not 0.
\<close>

lemma foldl_add_sum_list: "foldl (\<lambda>sum lat. sum + lat) acc ls = acc + sum_list (ls :: rat list)"
  by (induction ls arbitrary: acc) simp_all

lemma sum_list_positive:
  assumes "ls \<noteq> []" and "\<forall>lat \<in> set ls. 0 < (lat :: rat)"
  shows "0 < sum_list ls"
  using assms by (induction ls) (auto intro: add_pos_nonneg sum_list_nonneg less_imp_le)

lemma positive_samples_nonzero_average:
  assumes "\<forall>ls. latencyCache m rid = Some ls \<longrightarrow> (\<forall>lat \<in> set ls. 0 < lat)"
  shows "getAverageLatency m rid \<noteq> Some 0"
proof (cases "latencyCache m rid")
  case None
  then show ?thesis by (simp add: getAverageLatency_def)
next
  case (Some ls)
  with assms have pos: "\<forall>lat \<in> set ls. 0 < lat" by simp
  show ?thesis
  proof (cases "ls = []")
    case True
    with Some show ?thesis by (simp add: getAverageLatency_def)
  next
    case False
    from sum_list_positive [OF False pos] False Some show ?thesis
      by (simp add: getAverageLatency_def foldl_add_sum_list)
  qed
qed





text \<open>
  The average 0 is excluded above because the two truthiness tests of the code read it as
  they read \<open>null\<close>: in \<open>sampled_zero\<close> us-west-2 has the average 0 and us-east-1 has no
  samples, and the two get the same latency.
\<close>

lemma zero_average_counts_as_unsampled:
  "getAverageLatency sampled_zero ''us-east-1'' = None
   \<and> getAverageLatency sampled_zero ''us-west-2'' = Some 0
   \<and> selectByLatency sampled_zero [''us-east-1'', ''us-west-2''] = Some ''us-east-1''
   \<and> sortLatency sampled_zero ''us-west-2'' = sortLatency sampled_zero ''us-east-1''"
  by (simp add: sampled_zero_average selectByLatency_def sortLatency_def)

section \<open>Properties of the failover loop\<close>

lemma tryRegions_stop:
  "maxRetries \<le> n \<Longrightarrow>
     tryRegions net maxRetries m n lastErr cs = (Inl (AllRegionsFailed n lastErr), m, [])"
  by (cases cs) simp_all

lemma tryRegions_skip:
  "n < maxRetries \<Longrightarrow> skipped m c \<Longrightarrow>
     tryRegions net maxRetries m n lastErr (c # cs) = tryRegions net maxRetries m n lastErr cs"
  by (auto simp: skipped_def regionConfigured_def split: option.splits)

lemma tryRegions_resolved:
  "n < maxRetries \<Longrightarrow> \<not> skipped m (Some rid) \<Longrightarrow>
   outcome (net rid (Suc n)) = Resolved st body \<Longrightarrow>
     tryRegions net maxRetries m n lastErr (Some rid # cs) =
       (Inr \<lparr>data = body, region = rid, latency_ms = Math_round (elapsed (net rid (Suc n))),
             attempts = Suc n, status_code = st\<rparr>,
        updateLatencyCache m rid (elapsed (net rid (Suc n))), [(rid, Suc n)])"
  by (simp add: skipped_def Let_def)

lemma tryRegions_rejected:
  "n < maxRetries \<Longrightarrow> \<not> skipped m (Some rid) \<Longrightarrow>
   outcome (net rid (Suc n)) = Rejected st message \<Longrightarrow>
     tryRegions net maxRetries m n lastErr (Some rid # cs) =
       (case tryRegions net maxRetries
               (request_failed m rid (Suc n) st message (clock (net rid (Suc n))))
               (Suc n) (Some message) cs of
          (res, m', sent) \<Rightarrow> (res, m', (rid, Suc n) # sent))"
  by (simp add: skipped_def Let_def)

declare tryRegions.simps(2) [simp del]

lemma tryRegions_cases [consumes 1, case_names stop skip resolved rejected]:
  assumes run: "tryRegions net maxRetries m n lastErr cs = (res, m', sent)"
    and stop: "\<And>m n lastErr cs. cs = [] \<or> maxRetries \<le> n \<Longrightarrow>
        P m n lastErr cs (Inl (AllRegionsFailed n lastErr)) m []"
    and skip: "\<And>m n lastErr c cs res m' sent.
        n < maxRetries \<Longrightarrow> skipped m c \<Longrightarrow>
        tryRegions net maxRetries m n lastErr cs = (res, m', sent) \<Longrightarrow>
        P m n lastErr cs res m' sent \<Longrightarrow> P m n lastErr (c # cs) res m' sent"
    and resolved: "\<And>m n lastErr rid cs st body.
        n < maxRetries \<Longrightarrow> \<not> skipped m (Some rid) \<Longrightarrow>
        outcome (net rid (Suc n)) = Resolved st body \<Longrightarrow>
        P m n lastErr (Some rid # cs)
          (Inr \<lparr>data = body, region = rid, latency_ms = Math_round (elapsed (net rid (Suc n))),
                attempts = Suc n, status_code = st\<rparr>)
          (settle net m (rid, Suc n)) [(rid, Suc n)]"
    and rejected: "\<And>m n lastErr rid cs st message res m' sent.
        n < maxRetries \<Longrightarrow> \<not> skipped m (Some rid) \<Longrightarrow>
        outcome (net rid (Suc n)) = Rejected st message \<Longrightarrow>
        tryRegions net maxRetries (settle net m (rid, Suc n)) (Suc n) (Some message) cs
          = (res, m', sent) \<Longrightarrow>
        P (settle net m (rid, Suc n)) (Suc n) (Some message) cs res m' sent \<Longrightarrow>
        P m n lastErr (Some rid # cs) res m' ((rid, Suc n) # sent)"
  shows "P m n lastErr cs res m' sent"
  using run
proof (induction cs arbitrary: m n lastErr res m' sent)
  case Nil
  then show ?case using stop [of "[]" n m lastErr] by simp
next
  case (Cons c cs)
  show ?case
  proof (cases "maxRetries \<le> n")
    case True
    with Cons.prems stop [of "c # cs" n m lastErr] show ?thesis
      by (simp add: tryRegions_stop)
  next
    case False
    then have lt: "n < maxRetries" by simp
    show ?thesis
    proof (cases "skipped m c")
      case True
      with lt Cons.prems have "tryRegions net maxRetries m n lastErr cs = (res, m', sent)"
        by (simp add: tryRegions_skip)
      with lt True Cons.IH show ?thesis by (blast intro: skip)
    next
      case False
      then obtain rid where c: "c = Some rid"
        by (cases c) (auto simp: skipped_def)
      show ?thesis
      proof (cases "outcome (net rid (Suc n))")
        case (Resolved st body)
        with lt False c Cons.prems resolved [OF lt _ Resolved, of m lastErr cs] show ?thesis
          by (auto simp: tryRegions_resolved settle_def)
      next
        case (Rejected st message)
        have s: "settle net m (rid, Suc n) =
            request_failed m rid (Suc n) st message (clock (net rid (Suc n)))"
          by (simp add: settle_def Rejected)
        obtain res1 m1 sent1 where
          rec: "tryRegions net maxRetries (settle net m (rid, Suc n)) (Suc n) (Some message) cs
                 = (res1, m1, sent1)"
          by (metis prod_cases3)
        with lt False c Cons.prems Rejected s have
          eq: "res = res1" "m' = m1" "sent = (rid, Suc n) # sent1"
          by (simp_all add: tryRegions_rejected)
        from rejected [OF lt _ Rejected rec Cons.IH [OF rec]] False c eq show ?thesis
          by simp
      qed
    qed
  qed
qed

lemma tryRegions_replay:
  "tryRegions net maxRetries m n lastErr cs = (res, m', sent) \<Longrightarrow> m' = foldl (settle net) m sent"
  by (induction rule: tryRegions_cases) simp_all

lemma tryRegions_numbering:
  "tryRegions net maxRetries m n lastErr cs = (res, m', sent) \<Longrightarrow> map snd sent = [Suc n ..< Suc n + length sent]"
  by (induction rule: tryRegions_cases) (simp_all add: upt_rec)

lemma tryRegions_length_sent:
  "tryRegions net maxRetries m n lastErr cs = (res, m', sent) \<Longrightarrow> length sent \<le> length cs"
  by (induction rule: tryRegions_cases) simp_all

lemma tryRegions_sent_candidates:
  "tryRegions net maxRetries m n lastErr cs = (res, m', sent) \<Longrightarrow>
     Some ` fst ` set sent \<subseteq> set cs"
  by (induction rule: tryRegions_cases) auto

lemma tryRegions_sent_distinct:
  "tryRegions net maxRetries m n lastErr cs = (res, m', sent) \<Longrightarrow>
     distinct cs \<Longrightarrow> distinct (map fst sent)"
proof (induction rule: tryRegions_cases)
  case (rejected m n lastErr rid cs st message res m' sent)
  from tryRegions_sent_candidates [OF rejected.hyps(4)] rejected.prems
  have "rid \<notin> fst ` set sent" by auto
  with rejected show ?case by simp
qed simp_all

lemma tryRegions_result:
  "tryRegions net maxRetries m n lastErr cs = (res, m', sent) \<Longrightarrow>
     (case res of
        Inr s \<Rightarrow> sent \<noteq> [] \<and> last sent = (region s, attempts s) \<and> attempts s = n + length sent
                 \<and> outcome (net (region s) (attempts s)) = Resolved (status_code s) (data s)
      | Inl TypeError \<Rightarrow> False
      | Inl (AllRegionsFailed k e) \<Rightarrow> k = n + length sent
          \<and> e = (if sent = [] then lastErr
                   else error_message (outcome (net (fst (last sent)) (snd (last sent))))))"
  by (induction rule: tryRegions_cases)
     (auto simp: error_message_def split: sum.splits failure.splits)

lemma tryRegions_earlier_rejected:
  "tryRegions net maxRetries m n lastErr cs = (res, m', sent) \<Longrightarrow>
     (\<forall>q \<in> set (butlast sent). error_message (outcome (net (fst q) (snd q))) \<noteq> None)"
  by (induction rule: tryRegions_cases) (auto simp: error_message_def)

lemma map_of_regionHealth_request_failed:
  "map_of (regionHealth (request_failed m rid k response message now)) rid' =
     (if rid' = rid \<and> (\<exists>st. response = Some st \<and> 500 \<le> st)
      then map_option (\<lambda>h. h\<lparr>healthy := False, lastError := Some message\<rparr>)
             (map_of (regionHealth m) rid)
      else map_of (regionHealth m) rid')"
  by (auto simp: request_failed_def Let_def update_conv' split: option.splits)

lemma settle_health_other:
  "rid' \<noteq> fst q \<Longrightarrow>
     map_of (regionHealth (settle net m q)) rid' = map_of (regionHealth m) rid'"
  by (cases q) (auto simp: settle_def map_of_regionHealth_request_failed split: outcome.splits)

lemma foldl_settle_health_other:
  "rid \<notin> fst ` set sent \<Longrightarrow>
     map_of (regionHealth (foldl (settle net) m sent)) rid = map_of (regionHealth m) rid"
  by (induction sent arbitrary: m) (auto simp: settle_health_other)

lemma settle_health_same:
  "map_of (regionHealth (settle net m (rid, k))) rid =
     (case outcome (net rid k) of
        Resolved st body \<Rightarrow> map_of (regionHealth m) rid
      | Rejected response message \<Rightarrow>
          if \<exists>st. response = Some st \<and> 500 \<le> st
          then map_option (\<lambda>h. h\<lparr>healthy := False, lastError := Some message\<rparr>)
                 (map_of (regionHealth m) rid)
          else map_of (regionHealth m) rid)"
  by (auto simp: settle_def map_of_regionHealth_request_failed split: outcome.splits)

lemma foldl_settle_health_same:
  assumes "distinct (map fst sent)" and "(rid, k) \<in> set sent"
  shows "map_of (regionHealth (foldl (settle net) m sent)) rid =
     (case outcome (net rid k) of
        Resolved st body \<Rightarrow> map_of (regionHealth m) rid
      | Rejected response message \<Rightarrow>
          if \<exists>st. response = Some st \<and> 500 \<le> st
          then map_option (\<lambda>h. h\<lparr>healthy := False, lastError := Some message\<rparr>)
                 (map_of (regionHealth m) rid)
          else map_of (regionHealth m) rid)"
proof -
  from assms(2) obtain pre post where sent: "sent = pre @ (rid, k) # post"
    by (auto simp: in_set_conv_decomp)
  with assms(1) have out: "rid \<notin> fst ` set pre" "rid \<notin> fst ` set post"
    by auto
  have a: "map_of (regionHealth (foldl (settle net) m sent)) rid =
      map_of (regionHealth (settle net (foldl (settle net) m pre) (rid, k))) rid"
    by (simp add: sent foldl_settle_health_other [OF out(2)])
  have b: "map_of (regionHealth (foldl (settle net) m pre)) rid = map_of (regionHealth m) rid"
    by (rule foldl_settle_health_other [OF out(1)])
  show ?thesis
    unfolding a by (auto simp: settle_health_same b split: outcome.splits)
qed

lemma skipped_cong_health:
  "map_of (regionHealth m') rid = map_of (regionHealth m) rid \<Longrightarrow>
     skipped m' (Some rid) = skipped m (Some rid)"
  by (simp add: skipped_def isHealthy_def)

lemma tryRegions_sent_not_skipped:
  "tryRegions net maxRetries m n lastErr cs = (res, m', sent) \<Longrightarrow> distinct cs \<Longrightarrow>
     (\<forall>q \<in> set sent. \<not> skipped m (Some (fst q)))"
proof (induction rule: tryRegions_cases)
  case (rejected m n lastErr rid cs st message res m' sent)
  have "\<not> skipped m (Some (fst q))" if q: "q \<in> set sent" for q
  proof -
    from tryRegions_sent_candidates [OF rejected.hyps(4)] q rejected.prems
    have "fst q \<noteq> rid" by auto
    then have "skipped (settle net m (rid, Suc n)) (Some (fst q)) = skipped m (Some (fst q))"
      by (intro skipped_cong_health settle_health_other) simp
    with rejected q show ?thesis by simp
  qed
  with rejected show ?case by simp
qed simp_all

lemma failoverHistory_request_failed:
  "failoverHistory (request_failed m rid k response message now) =
     (let history = failoverHistory m @
        [\<lparr>timestamp = now, fromRegion = rid, event_error = message, attempt = k\<rparr>]
      in if length history > 100 then tl history else history)"
  by (auto simp: request_failed_def Let_def split: option.splits)

lemma failoverHistory_settle:
  assumes "failoverHistory m = last_n 100 hist"
  shows "failoverHistory (settle net m q) = last_n 100 (hist @ failure_events net [q])"
proof (cases q)
  case (Pair rid k)
  show ?thesis
  proof (cases "outcome (net rid k)")
    case (Resolved st body)
    then show ?thesis
      using assms by (simp add: Pair settle_def failure_events_def)
  next
    case (Rejected response message)
    have "(let history = last_n 100 hist @
              [\<lparr>timestamp = clock (net rid k), fromRegion = rid, event_error = message,
                attempt = k\<rparr>]
           in if length history > 100 then tl history else history) =
          last_n 100 (hist @
              [\<lparr>timestamp = clock (net rid k), fromRegion = rid, event_error = message,
                attempt = k\<rparr>])"
      unfolding Let_def by (rule window_push) simp
    then show ?thesis
      using assms Rejected
      by (simp add: Pair settle_def failure_events_def failoverHistory_request_failed)
  qed
qed

lemma failure_events_append:
  "failure_events net (xs @ ys) = failure_events net xs @ failure_events net ys"
  by (simp add: failure_events_def)

lemma failoverHistory_foldl_settle:
  "failoverHistory m = last_n 100 hist \<Longrightarrow>
     failoverHistory (foldl (settle net) m sent) = last_n 100 (hist @ failure_events net sent)"
proof (induction sent arbitrary: m hist)
  case Nil
  then show ?case by (simp add: failure_events_def)
next
  case (Cons q sent)
  from failoverHistory_settle [OF Cons.prems]
  have "failoverHistory (settle net m q) = last_n 100 (hist @ failure_events net [q])" .
  from Cons.IH [OF this] show ?case
    using failure_events_append [of net "[q]" sent] by simp
qed

lemma length_failure_events: "length (failure_events net sent) \<le> length sent"
  by (induction sent) (auto simp: failure_events_def split: outcome.splits)

lemma failure_event_mem:
  "(rid, k) \<in> set sent \<Longrightarrow> outcome (net rid k) = Rejected response message \<Longrightarrow>
     \<lparr>timestamp = clock (net rid k), fromRegion = rid, event_error = message, attempt = k\<rparr>
       \<in> set (failure_events net sent)"
  by (force simp: failure_events_def)

lemma distinct_regionOrder: "distinct (regionOrder m preferred)"
  by (auto simp: regionOrder_def distinct_map distinct_getFailoverRegions
      set_getFailoverRegions inj_on_def)

lemma length_regionOrder: "length (regionOrder m preferred) \<le> 5"
proof -
  have "length (getFailoverRegions m preferred) \<le> length (map fst REGIONS)"
    unfolding getFailoverRegions_def length_sort
    by (meson le_trans length_filter_le)
  then show ?thesis by (simp add: regionOrder_def REGIONS_def)
qed

lemma executeWithFailover_cases:
  obtains (thrown) "getBestRegion m (clientIP opts) (userCountry opts) = Inl TypeError"
      "executeWithFailover net m opts maxRetries = (Inl TypeError, m, [])"
  | (tried) preferred where "getBestRegion m (clientIP opts) (userCountry opts) = Inr preferred"
      "executeWithFailover net m opts maxRetries =
         tryRegions net maxRetries m 0 None (regionOrder m preferred)"
proof (cases "getBestRegion m (clientIP opts) (userCountry opts)")
  case (Inl e)
  moreover from Inl have "e = TypeError"
    by (auto simp: getBestRegion_def Let_def split: if_splits option.splits)
  ultimately show ?thesis using thrown by (simp add: executeWithFailover_def)
next
  case (Inr preferred)
  then show ?thesis using tried by (simp add: executeWithFailover_def)
qed

lemma tryRegions_all_skipped:
  "\<forall>c \<in> set cs. skipped m c \<Longrightarrow>
     tryRegions net maxRetries m 0 None cs = (Inl (AllRegionsFailed 0 None), m, [])"
proof (induction cs)
  case Nil
  show ?case by simp
next
  case (Cons c cs)
  show ?case
  proof (cases "maxRetries = 0")
    case True
    then show ?thesis by (simp add: tryRegions_stop)
  next
    case False
    with Cons show ?thesis by (simp add: tryRegions_skip)
  qed
qed

lemma tryRegions_first:
  "tryRegions net maxRetries m n lastErr cs = (res, m', sent) \<Longrightarrow>
     (case find (\<lambda>c. \<not> skipped m c) cs of
        Some (Some next_rid) \<Rightarrow>
          if n < maxRetries then sent \<noteq> [] \<and> hd sent = (next_rid, Suc n)
          else sent = [] \<and> res = Inl (AllRegionsFailed n lastErr)
      | _ \<Rightarrow> sent = [] \<and> res = Inl (AllRegionsFailed n lastErr))"
  by (induction rule: tryRegions_cases) (auto simp: skipped_def split: option.splits)

lemma tryRegions_first_mem:
  assumes "tryRegions net maxRetries m n lastErr cs = (res, m', sent)"
  shows "(case find (\<lambda>c. \<not> skipped m c) cs of
        Some (Some next_rid) \<Rightarrow>
          if n < maxRetries then (next_rid, Suc n) \<in> set sent
          else res = Inl (AllRegionsFailed n lastErr)
      | _ \<Rightarrow> res = Inl (AllRegionsFailed n lastErr))"
proof -
  have "x \<in> set sent" if "sent \<noteq> []" "hd sent = x" for x
    using that by (metis hd_in_set)
  with tryRegions_first [OF assms] show ?thesis
    by (auto split: option.splits if_splits)
qed

lemma skipped_settle_other:
  "c \<noteq> Some (fst q) \<Longrightarrow> skipped (settle net m q) c = skipped m c"
proof (cases c)
  case None
  then show ?thesis by (simp add: skipped_def)
next
  case (Some rid)
  assume "c \<noteq> Some (fst q)"
  with Some have "rid \<noteq> fst q" by simp
  then show ?thesis
    unfolding Some by (intro skipped_cong_health settle_health_other)
qed

lemma tryRegions_next:
  "tryRegions net maxRetries m n lastErr cs = (res, m', sent) \<Longrightarrow> distinct cs \<Longrightarrow>
   (rid, k) \<in> set sent \<Longrightarrow> outcome (net rid k) = Rejected response message \<Longrightarrow>
     (case find (\<lambda>c. \<not> skipped m c) (tl (dropWhile (\<lambda>c. c \<noteq> Some rid) cs)) of
        Some (Some next_rid) \<Rightarrow>
          if k < maxRetries then (next_rid, Suc k) \<in> set sent
          else res = Inl (AllRegionsFailed k (Some message))
      | _ \<Rightarrow> res = Inl (AllRegionsFailed k (Some message)))"
proof (induction rule: tryRegions_cases)
  case (stop m n lastErr cs)
  then show ?case by simp
next
  case (skip m n lastErr c cs res m' sent)
  from tryRegions_sent_not_skipped [OF skip.hyps(3)] skip.prems
  have "\<not> skipped m (Some rid)" by auto
  with skip.hyps(2) have "c \<noteq> Some rid" by auto
  with skip show ?case by simp
next
  case (resolved m n lastErr rid0 cs st body)
  then show ?case by auto
next
  case (rejected m n lastErr rid0 cs st msg0 res m' sent)
  let ?m1 = "settle net m (rid0, Suc n)"
  have frame: "skipped ?m1 c = skipped m c" if "c \<in> set cs" for c
    using that rejected.prems(1) by (intro skipped_settle_other) auto
  have not_later: "rid0 \<notin> fst ` set sent"
    using tryRegions_sent_candidates [OF rejected.hyps(4)] rejected.prems(1) by auto
  show ?case
  proof (cases "rid = rid0")
    case True
    with rejected.prems(2) not_later have k: "k = Suc n" by force
    with True rejected.hyps(3) rejected.prems(3) have msg: "message = msg0" by simp
    have "find (\<lambda>c. \<not> skipped ?m1 c) cs = find (\<lambda>c. \<not> skipped m c) cs"
      by (rule find_cong) (simp_all add: frame)
    with tryRegions_first_mem [OF rejected.hyps(4)] show ?thesis
      by (auto simp: True k msg split: option.splits if_splits)
  next
    case False
    with rejected.prems(2) have mem: "(rid, k) \<in> set sent" by simp
    have "find (\<lambda>c. \<not> skipped ?m1 c) (tl (dropWhile (\<lambda>c. c \<noteq> Some rid) cs))
        = find (\<lambda>c. \<not> skipped m c) (tl (dropWhile (\<lambda>c. c \<noteq> Some rid) cs))"
    proof (rule find_cong)
      fix c assume "c \<in> set (tl (dropWhile (\<lambda>c. c \<noteq> Some rid) cs))"
      then have "c \<in> set cs"
        by (metis list.sel(2) list.set_sel(2) set_dropWhileD)
      then show "(\<not> skipped ?m1 c) = (\<not> skipped m c)" by (simp add: frame)
    qed simp
    with rejected.IH [OF _ mem rejected.prems(3)] rejected.prems(1) False show ?thesis
      by (auto split: option.splits if_splits)
  qed
qed

lemma executeWithFailover_next:
  assumes run: "executeWithFailover net m opts maxRetries = (res, m', sent)"
    and mem: "(rid, k) \<in> set sent"
    and rej: "outcome (net rid k) = Rejected response message"
  shows "(case next_candidate m opts rid of
        Some next_rid \<Rightarrow>
          if k < maxRetries then (next_rid, Suc k) \<in> set sent
          else res = Inl (AllRegionsFailed k (Some message))
      | None \<Rightarrow> res = Inl (AllRegionsFailed k (Some message)))"
proof (cases rule: executeWithFailover_cases [of m opts net maxRetries])
  case thrown
  with run mem show ?thesis by simp
next
  case (tried preferred)
  with run have loop:
    "tryRegions net maxRetries m 0 None (regionOrder m preferred) = (res, m', sent)"
    by simp
  from tryRegions_next [OF loop distinct_regionOrder mem rej] show ?thesis
    by (auto simp: next_candidate_def candidates_after_def tried(1) split: option.splits)
qed

lemma no_healthy_entry_skipped:
  assumes "\<forall>entry \<in> set (regionHealth m). \<not> healthy (snd entry)"
  shows "skipped m c"
proof (cases c)
  case None
  then show ?thesis by (simp add: skipped_def)
next
  case (Some rid)
  have "\<not> isHealthy m rid"
  proof (cases "map_of (regionHealth m) rid")
    case None
    then show ?thesis by (simp add: isHealthy_def)
  next
    case (Some h)
    then have "(rid, h) \<in> set (regionHealth m)" by (rule map_of_SomeD)
    with assms have "\<not> healthy h" by auto
    with Some show ?thesis by (simp add: isHealthy_def)
  qed
  with Some show ?thesis by (simp add: skipped_def)
qed

lemma executeWithFailover_sent:
  assumes "executeWithFailover net m opts maxRetries = (res, m', sent)" and "sent \<noteq> []"
  obtains preferred where
    "tryRegions net maxRetries m 0 None (regionOrder m preferred) = (res, m', sent)"
  using assms by (cases rule: executeWithFailover_cases [of m opts net maxRetries]) auto

lemma sent_position:
  assumes "map snd sent = [Suc 0 ..< Suc (length sent)]" and "(rid, k) \<in> set sent"
  shows "0 < k \<and> k \<le> length sent \<and> sent ! (k - 1) = (rid, k)"
proof -
  from assms(2) obtain i where i: "i < length sent" "sent ! i = (rid, k)"
    by (auto simp: in_set_conv_nth)
  then have "snd (sent ! i) = map snd sent ! i" by simp
  also have "\<dots> = Suc i" using i(1) by (simp add: assms(1) del: upt_Suc)
  finally have "k = Suc i" using i(2) by simp
  with i show ?thesis by simp
qed

lemma history_gets_event:
  assumes run: "tryRegions net maxRetries m n lastErr cs = (res, m', sent)"
    and cs: "length cs \<le> 100"
    and hist: "length (failoverHistory m) \<le> 100"
    and q: "(rid, k) \<in> set sent" "outcome (net rid k) = Rejected response message"
  shows "\<lparr>timestamp = clock (net rid k), fromRegion = rid, event_error = message, attempt = k\<rparr>
           \<in> set (failoverHistory m')"
proof -
  from hist have "failoverHistory m = last_n 100 (failoverHistory m)"
    by (simp add: last_n_id)
  from failoverHistory_foldl_settle [OF this, of net sent] tryRegions_replay [OF run]
  have h: "failoverHistory m' = last_n 100 (failoverHistory m @ failure_events net sent)"
    by simp
  have "length (failure_events net sent) \<le> 100"
    using length_failure_events [of net sent] tryRegions_length_sent [OF run] cs by simp
  from set_last_n_append [OF this] failure_event_mem [of rid k sent net, OF q] show ?thesis
    unfolding h by blast
qed

lemma isHealthy_request_failed:
  "isHealthy (request_failed m rid k response message now) rid' =
     (isHealthy m rid' \<and> \<not> (rid' = rid \<and> (\<exists>st. response = Some st \<and> 500 \<le> st)))"
  by (cases "map_of (regionHealth m) rid")
     (auto simp: isHealthy_def map_of_regionHealth_request_failed)

lemma isHealthy_updateLatencyCache [simp]:
  "isHealthy (updateLatencyCache m rid x) rid' = isHealthy m rid'"
  by (simp add: isHealthy_def)

lemma getAverageLatency_history [simp]:
  "getAverageLatency (m\<lparr>failoverHistory := h\<rparr>) rid = getAverageLatency m rid"
  by (simp add: getAverageLatency_def)

lemma isHealthy_history [simp]: "isHealthy (m\<lparr>failoverHistory := h\<rparr>) rid = isHealthy m rid"
  by (simp add: isHealthy_def)

lemma selectByLatency_history [simp]:
  "selectByLatency (m\<lparr>failoverHistory := h\<rparr>) = selectByLatency m"
  by (simp add: fun_eq_iff selectByLatency_def)

lemma getBestRegion_history [simp]:
  "getBestRegion (m\<lparr>failoverHistory := h\<rparr>) ip country = getBestRegion m ip country"
  by (simp add: getBestRegion_def healthyRegionIds_def Let_def split: option.splits)

lemma getFailoverRegions_history [simp]:
  "getFailoverRegions (m\<lparr>failoverHistory := h\<rparr>) ex = getFailoverRegions m ex"
proof -
  have "sortLatency (m\<lparr>failoverHistory := h\<rparr>) = sortLatency m"
    by (simp add: fun_eq_iff sortLatency_def)
  moreover have "isHealthy (m\<lparr>failoverHistory := h\<rparr>) = isHealthy m"
    by (simp add: fun_eq_iff)
  ultimately show ?thesis by (simp add: getFailoverRegions_def)
qed

lemma run_east_fails:
  "executeWithFailover (east_fails response message) (all_up\<lparr>failoverHistory := h\<rparr>) no_hint 3 =
     (Inr \<lparr>data = ''{}'', region = ''us-west-2'', latency_ms = 80, attempts = 2,
           status_code = 200\<rparr>,
      updateLatencyCache
        (request_failed (all_up\<lparr>failoverHistory := h\<rparr>) ''us-east-1'' 1 response message
           ''2026-01-01T00:00:30.000Z'')
        ''us-west-2'' 80,
      [(''us-east-1'', 1), (''us-west-2'', 2)])"
  by (simp add: executeWithFailover_def no_hint_def all_up_best regionOrder_def all_up_failover
      tryRegions.simps(2) regionConfigured_def REGIONS_def all_up_isHealthy
      isHealthy_request_failed east_fails_def failed_with_def replied_def)

lemma all_up_unchanged: "all_up\<lparr>failoverHistory := []\<rparr> = all_up"
  by (simp add: all_up_def checkAllRegionsHealth_def REGIONS_def constructed_def
      probe_settled_def replied_def updateLatencyCache_def)

lemma run_east_fails_all_up:
  "executeWithFailover (east_fails response message) all_up no_hint 3 =
     (Inr \<lparr>data = ''{}'', region = ''us-west-2'', latency_ms = 80, attempts = 2,
           status_code = 200\<rparr>,
      updateLatencyCache
        (request_failed all_up ''us-east-1'' 1 response message ''2026-01-01T00:00:30.000Z'')
        ''us-west-2'' 80,
      [(''us-east-1'', 1), (''us-west-2'', 2)])"
  using run_east_fails [of response message "[]"] by (simp add: all_up_unchanged)

lemma all_up_next: "next_candidate all_up no_hint ''us-east-1'' = Some ''us-west-2''"
  by (simp add: next_candidate_def candidates_after_def no_hint_def all_up_best regionOrder_def
      all_up_failover skipped_def regionConfigured_def REGIONS_def all_up_isHealthy)

lemma run_east_fails_once:
  "executeWithFailover (east_fails response message) all_up no_hint 1 =
     (Inl (AllRegionsFailed 1 (Some message)),
      request_failed all_up ''us-east-1'' 1 response message ''2026-01-01T00:00:30.000Z'',
      [(''us-east-1'', 1)])"
  by (simp add: executeWithFailover_def no_hint_def all_up_best regionOrder_def all_up_failover
      tryRegions.simps(2) regionConfigured_def REGIONS_def all_up_isHealthy
      east_fails_def failed_with_def)

lemma failoverHistory_request_failed_last_n:
  assumes "length (failoverHistory m) \<le> 100"
  shows "failoverHistory (request_failed m rid k response message now) =
     last_n 100 (failoverHistory m @
       [\<lparr>timestamp = now, fromRegion = rid, event_error = message, attempt = k\<rparr>])"
  using last_n_snoc_bounded [OF assms, of
      "\<lparr>timestamp = now, fromRegion = rid, event_error = message, attempt = k\<rparr>"]
  by (simp add: failoverHistory_request_failed Let_def)

section \<open>Properties of the failover executor\<close>

text \<open>
  Claim C10. A candidate that is passed over because its health record is missing or not
  healthy uses no attempt: every request of a call went to a candidate that was not
  skipped, and the number of attempts the call reports, on success or in the error it
  throws, is the number of requests it sent. When every candidate is skipped the call
  throws the error with 0 attempts and no last error, and leaves the manager as it was.
\<close>

theorem skipped_candidates_use_no_attempt:
  "(let run = executeWithFailover net m opts maxRetries
    in (\<forall>q \<in> set (call_requests run). \<not> skipped m (Some (fst q)))
     \<and> (case call_result run of
          Inr s \<Rightarrow> attempts s = length (call_requests run)
        | Inl TypeError \<Rightarrow> call_requests run = []
        | Inl (AllRegionsFailed k e) \<Rightarrow>
            k = length (call_requests run) \<and> (call_requests run = [] \<longrightarrow> e = None)))
   \<and> (\<forall>preferred. getBestRegion m (clientIP opts) (userCountry opts) = Inr preferred
         \<and> (\<forall>c \<in> set (regionOrder m preferred). skipped m c)
       \<longrightarrow> executeWithFailover net m opts maxRetries = (Inl (AllRegionsFailed 0 None), m, []))"
proof (cases rule: executeWithFailover_cases [of m opts net maxRetries])
  case thrown
  then show ?thesis by (simp add: call_requests_def call_result_def Let_def)
next
  case (tried preferred)
  obtain res m' sent where
    run: "tryRegions net maxRetries m 0 None (regionOrder m preferred) = (res, m', sent)"
    by (metis prod_cases3)
  from tryRegions_sent_not_skipped [OF run distinct_regionOrder]
  have a: "\<forall>q \<in> set sent. \<not> skipped m (Some (fst q))" .
  from tryRegions_result [OF run]
  have b: "case res of
          Inr s \<Rightarrow> attempts s = length sent
        | Inl TypeError \<Rightarrow> sent = []
        | Inl (AllRegionsFailed k e) \<Rightarrow> k = length sent \<and> (sent = [] \<longrightarrow> e = None)"
    by (auto split: sum.splits failure.splits)
  have c: "executeWithFailover net m opts maxRetries = (Inl (AllRegionsFailed 0 None), m, [])"
    if "\<forall>c \<in> set (regionOrder m preferred). skipped m c"
    using that tried by (simp add: tryRegions_all_skipped)
  from a b c tried run show ?thesis
    by (simp add: call_requests_def call_result_def Let_def split: sum.splits failure.splits)
qed

text \<open>
  Two instances: a call that sends two requests and reports two attempts, and a call on
  a manager without a healthy region, where every candidate is skipped.
\<close>

theorem skipped_candidates_witness:
  "attempts (projr (call_result (executeWithFailover
        (east_fails (Some 503) ''Request failed with status code 503'') all_up no_hint 3)))
     = length (call_requests (executeWithFailover
        (east_fails (Some 503) ''Request failed with status code 503'') all_up no_hint 3))
   \<and> call_requests (executeWithFailover
        (east_fails (Some 503) ''Request failed with status code 503'') all_up no_hint 3)
     = [(''us-east-1'', 1), (''us-west-2'', 2)]
   \<and> \<not> skipped all_up (Some ''us-west-2'')
   \<and> getBestRegion all_down (clientIP no_hint) (userCountry no_hint) = Inr (Some ''us-east-1'')
   \<and> list_all (skipped all_down) (regionOrder all_down (Some ''us-east-1''))
   \<and> executeWithFailover (east_fails None ''timeout'') all_down no_hint 3
     = (Inl (AllRegionsFailed 0 None), all_down, [])"
proof -
  let ?net = "east_fails (Some 503) ''Request failed with status code 503''"
  have none: "\<forall>entry \<in> set (regionHealth all_down). \<not> healthy (snd entry)"
    by (simp add: all_down_health)
  have best: "getBestRegion all_down (clientIP no_hint) (userCountry no_hint)
      = Inr (Some ''us-east-1'')"
    using no_healthy_entry_ids [OF none]
    by (simp add: getBestRegion_def all_down_current)
  have skip: "\<forall>c \<in> set (regionOrder all_down (Some ''us-east-1'')). skipped all_down c"
    using none by (simp add: no_healthy_entry_skipped)
  have run: "executeWithFailover ?net all_up no_hint 3 =
     (Inr \<lparr>data = ''{}'', region = ''us-west-2'', latency_ms = 80, attempts = 2,
           status_code = 200\<rparr>,
      updateLatencyCache
        (request_failed all_up ''us-east-1'' 1 (Some 503) ''Request failed with status code 503''
           ''2026-01-01T00:00:30.000Z'')
        ''us-west-2'' 80,
      [(''us-east-1'', 1), (''us-west-2'', 2)])"
    by (rule run_east_fails_all_up)
  from skipped_candidates_use_no_attempt [of ?net all_up no_hint 3]
  have a: "attempts (projr (call_result (executeWithFailover ?net all_up no_hint 3)))
      = length (call_requests (executeWithFailover ?net all_up no_hint 3))"
    and b: "\<not> skipped all_up (Some ''us-west-2'')"
    by (simp_all add: Let_def run call_requests_def call_result_def)
  from skipped_candidates_use_no_attempt [of "east_fails None ''timeout''" all_down no_hint 3]
    best skip
  have c: "executeWithFailover (east_fails None ''timeout'') all_down no_hint 3
     = (Inl (AllRegionsFailed 0 None), all_down, [])"
    by blast
  from a b c best skip run show ?thesis
    by (simp add: call_requests_def list_all_iff)
qed

text \<open>
  Claim C3. The code at the input where the claim fails: after a tick in which every
  probe timed out, no health record is healthy; \<open>getBestRegion\<close> falls back to the
  current region, the loop skips it because its record is not healthy, and the call
  throws "All regions failed after 0 attempts" without having sent a request.
\<close>

theorem no_healthy_region_no_request:
  "\<forall>net maxRetries.
     executeWithFailover net all_down \<lparr>clientIP = None, userCountry = None\<rparr> maxRetries
       = (Inl (AllRegionsFailed 0 None), all_down, [])"
proof (intro allI)
  fix net maxRetries
  have none: "\<forall>entry \<in> set (regionHealth all_down). \<not> healthy (snd entry)"
    by (simp add: all_down_health)
  then have best: "getBestRegion all_down None None = Inr (Some (currentRegion all_down))"
    using no_healthy_entry_ids [OF none] by (simp add: getBestRegion_def)
  from none have "\<forall>c \<in> set (regionOrder all_down (Some (currentRegion all_down))).
      skipped all_down c"
    by (simp add: no_healthy_entry_skipped)
  then show "executeWithFailover net all_down \<lparr>clientIP = None, userCountry = None\<rparr> maxRetries
       = (Inl (AllRegionsFailed 0 None), all_down, [])"
    by (simp add: executeWithFailover_def best tryRegions_all_skipped)
qed

text \<open>
  Claim C1, as amended. When the first request of a call is rejected with a status from
  400 to 499, the region's health record is left as it was, so it stays healthy; the
  failure is pushed to the failover history as attempt 1 and the loop advances to the
  next candidate: when \<open>maxRetries\<close> is more than 1 and a candidate after the
  region in the order is not skipped, the second request of the call goes to the first
  such candidate, as attempt 2; otherwise no further request is sent and the call throws
  the error with 1 attempt and this failure as the last one. A response the call returns
  comes from another region on a later attempt.
\<close>

theorem client_error_fails_over:
  assumes hist: "length (failoverHistory m) \<le> 100"
    and first: "call_requests (executeWithFailover net m opts maxRetries) = (rid, k) # later"
    and rej: "outcome (net rid k) = Rejected (Some st) message"
    and st: "400 \<le> st" "st < 500"
  shows "k = 1
    \<and> map_of (regionHealth (call_manager (executeWithFailover net m opts maxRetries))) rid
        = map_of (regionHealth m) rid
    \<and> isHealthy (call_manager (executeWithFailover net m opts maxRetries)) rid
    \<and> \<lparr>timestamp = clock (net rid k), fromRegion = rid, event_error = message, attempt = 1\<rparr>
        \<in> set (failoverHistory (call_manager (executeWithFailover net m opts maxRetries)))
    \<and> (\<forall>s. call_result (executeWithFailover net m opts maxRetries) = Inr s
          \<longrightarrow> 2 \<le> attempts s \<and> region s \<noteq> rid)
    \<and> (case next_candidate m opts rid of
          Some next_rid \<Rightarrow>
            if 1 < maxRetries then later \<noteq> [] \<and> hd later = (next_rid, 2)
            else later = [] \<and> call_result (executeWithFailover net m opts maxRetries)
              = Inl (AllRegionsFailed 1 (Some message))
        | None \<Rightarrow>
            later = [] \<and> call_result (executeWithFailover net m opts maxRetries)
              = Inl (AllRegionsFailed 1 (Some message)))"
proof -
  obtain res m' sent where run: "executeWithFailover net m opts maxRetries = (res, m', sent)"
    by (metis prod_cases3)
  with first have sent: "sent = (rid, k) # later" by (simp add: call_requests_def)
  with run obtain preferred where
    loop: "tryRegions net maxRetries m 0 None (regionOrder m preferred) = (res, m', sent)"
    by (auto elim: executeWithFailover_sent)
  have dist: "distinct (map fst sent)"
    using tryRegions_sent_distinct [OF loop distinct_regionOrder] .
  have num: "map snd sent = [Suc 0 ..< Suc (length sent)]"
    using tryRegions_numbering [OF loop] by simp
  have mem: "(rid, k) \<in> set sent" by (simp add: sent)
  from num have k: "k = 1"
    by (simp add: sent upt_rec)
  have m': "m' = foldl (settle net) m sent" using tryRegions_replay [OF loop] .
  have health: "map_of (regionHealth m') rid = map_of (regionHealth m) rid"
    unfolding m' using foldl_settle_health_same [OF dist mem, of net m] rej st by simp
  have "\<not> skipped m (Some rid)"
    using tryRegions_sent_not_skipped [OF loop distinct_regionOrder] mem by auto
  then have "isHealthy m rid" by (simp add: skipped_def)
  with health have healthy: "isHealthy m' rid" by (simp add: isHealthy_def)
  have "length (regionOrder m preferred) \<le> 100"
    using length_regionOrder [of m preferred] by simp
  from history_gets_event [OF loop this hist mem rej]
  have event: "\<lparr>timestamp = clock (net rid k), fromRegion = rid, event_error = message,
      attempt = 1\<rparr> \<in> set (failoverHistory m')"
    by (simp add: k)
  have returned: "2 \<le> attempts s \<and> region s \<noteq> rid" if Inr: "res = Inr s" for s
  proof -
    from tryRegions_result [OF loop] Inr have s: "last sent = (region s, attempts s)"
      "attempts s = length sent"
      "outcome (net (region s) (attempts s)) = Resolved (status_code s) (data s)"
      by auto
    with rej have "last sent \<noteq> (rid, k)" by auto
    then have later: "later \<noteq> []" "last sent = last later" by (auto simp: sent)
    then have "(region s, attempts s) \<in> set later" using s(1) by (metis last_in_set)
    with dist have "region s \<noteq> rid" by (force simp: sent)
    moreover from later s(2) have "2 \<le> attempts s" by (cases later) (simp_all add: sent)
    ultimately show ?thesis by simp
  qed
  have thrown: "later = []" if "res = Inl (AllRegionsFailed 1 e)" for e
    using tryRegions_result [OF loop] that by (simp add: sent)
  have second: "later \<noteq> [] \<and> hd later = (next_rid, 2)" if "(next_rid, Suc k) \<in> set sent"
    for next_rid
  proof -
    from sent_position [OF num that] have "2 \<le> length sent" "sent ! 1 = (next_rid, 2)"
      by (simp_all add: k)
    then show ?thesis by (cases later) (simp_all add: sent)
  qed
  have continues: "case next_candidate m opts rid of
          Some next_rid \<Rightarrow>
            if 1 < maxRetries then later \<noteq> [] \<and> hd later = (next_rid, 2)
            else later = [] \<and> res = Inl (AllRegionsFailed 1 (Some message))
        | None \<Rightarrow> later = [] \<and> res = Inl (AllRegionsFailed 1 (Some message))"
    using executeWithFailover_next [OF run mem rej] second thrown
    by (auto simp: k split: option.splits if_splits)
  from k health healthy event returned continues show ?thesis
    by (simp add: run call_manager_def call_result_def split: option.splits)
qed

text \<open>
  The claim as stated fails: the first request is answered with 404, and the call sends
  a second request, to us-west-2, and returns its response with \<open>attempts = 2\<close>.
\<close>

theorem client_error_fails_over_counterexample:
  "outcome (east_fails (Some 404) ''Request failed with status code 404'' ''us-east-1'' 1)
      = Rejected (Some 404) ''Request failed with status code 404''
   \<and> call_requests (executeWithFailover
        (east_fails (Some 404) ''Request failed with status code 404'') all_up no_hint 3)
      = [(''us-east-1'', 1), (''us-west-2'', 2)]
   \<and> call_result (executeWithFailover
        (east_fails (Some 404) ''Request failed with status code 404'') all_up no_hint 3)
      = Inr \<lparr>data = ''{}'', region = ''us-west-2'', latency_ms = 80, attempts = 2,
             status_code = 200\<rparr>"
  by (simp add: run_east_fails_all_up call_requests_def call_result_def)
     (simp add: east_fails_def failed_with_def)

text \<open>
  Two instances: the same call with \<open>maxRetries = 3\<close>, where us-east-1 is
  still healthy afterwards, the failure is in the failover history and the second request
  goes to us-west-2, the next candidate; and the call with \<open>maxRetries = 1\<close>,
  which sends no second request and throws the error.
\<close>

theorem client_error_fails_over_witness:
  "length (failoverHistory all_up) \<le> 100
   \<and> call_requests (executeWithFailover
        (east_fails (Some 404) ''Request failed with status code 404'') all_up no_hint 3)
      = (''us-east-1'', 1) # [(''us-west-2'', 2)]
   \<and> call_requests (executeWithFailover
        (east_fails (Some 404) ''Request failed with status code 404'') all_up no_hint 1)
      = (''us-east-1'', 1) # []
   \<and> outcome (east_fails (Some 404) ''Request failed with status code 404'' ''us-east-1'' 1)
      = Rejected (Some 404) ''Request failed with status code 404''
   \<and> (400::nat) \<le> 404 \<and> (404::nat) < 500
   \<and> isHealthy (call_manager (executeWithFailover
        (east_fails (Some 404) ''Request failed with status code 404'') all_up no_hint 3))
        ''us-east-1''
   \<and> \<lparr>timestamp = ''2026-01-01T00:00:30.000Z'', fromRegion = ''us-east-1'',
        event_error = ''Request failed with status code 404'', attempt = 1\<rparr>
      \<in> set (failoverHistory (call_manager (executeWithFailover
        (east_fails (Some 404) ''Request failed with status code 404'') all_up no_hint 3)))
   \<and> next_candidate all_up no_hint ''us-east-1'' = Some ''us-west-2''
   \<and> hd [(''us-west-2'', 2 :: nat)] = (''us-west-2'', 2)
   \<and> call_result (executeWithFailover
        (east_fails (Some 404) ''Request failed with status code 404'') all_up no_hint 1)
      = Inl (AllRegionsFailed 1 (Some ''Request failed with status code 404''))"
proof -
  let ?net = "east_fails (Some 404) ''Request failed with status code 404''"
  have h1: "length (failoverHistory all_up) \<le> 100"
    by (simp add: all_up_history)
  have h2: "call_requests (executeWithFailover ?net all_up no_hint 3)
      = (''us-east-1'', 1) # [(''us-west-2'', 2)]"
    by (simp add: run_east_fails_all_up call_requests_def)
  have h2': "call_requests (executeWithFailover ?net all_up no_hint 1) = (''us-east-1'', 1) # []"
    using run_east_fails_once [of "Some 404" "''Request failed with status code 404''"]
    by (simp add: call_requests_def)
  have h3: "outcome (?net ''us-east-1'' 1)
      = Rejected (Some 404) ''Request failed with status code 404''"
    by (simp add: east_fails_def failed_with_def)
  have h4: "(400::nat) \<le> 404" and h5: "(404::nat) < 500" by simp_all
  have c: "clock (?net ''us-east-1'' 1) = ''2026-01-01T00:00:30.000Z''"
    by (simp add: east_fails_def failed_with_def)
  from client_error_fails_over [OF h1 h2 h3 h4 h5] c
  have a: "isHealthy (call_manager (executeWithFailover ?net all_up no_hint 3)) ''us-east-1''"
    and b: "\<lparr>timestamp = ''2026-01-01T00:00:30.000Z'', fromRegion = ''us-east-1'',
        event_error = ''Request failed with status code 404'', attempt = 1\<rparr>
      \<in> set (failoverHistory (call_manager (executeWithFailover ?net all_up no_hint 3)))"
    and d: "hd [(''us-west-2'', 2 :: nat)] = (''us-west-2'', 2)"
    by (simp_all add: all_up_next)
  from client_error_fails_over [OF h1 h2' h3 h4 h5]
  have e: "call_result (executeWithFailover ?net all_up no_hint 1)
      = Inl (AllRegionsFailed 1 (Some ''Request failed with status code 404''))"
    by (simp add: all_up_next)
  from h1 h2 h2' h3 a b d e show ?thesis
    by (simp add: all_up_next)
qed

text \<open>
  Claim C2, as amended. Every request of a call that is rejected pushes its event to the
  failover history. When the rejection carries a response with a status of 500 or more,
  the region's health record gets \<open>healthy = false\<close> and the message as
  \<open>lastError\<close>, at once; when it carries no response (a timeout, a connection
  failure) or a status below 500, the record is left as it was and the region stays
  healthy. In both cases the loop advances to the next candidate: when the failed
  request was attempt \<open>k\<close> with \<open>k\<close> less than
  \<open>maxRetries\<close> and a candidate after the region in the order is not skipped,
  the call sends attempt \<open>k + 1\<close> to the first such candidate; otherwise the
  call throws the error with \<open>k\<close> attempts and this failure as the last one.
\<close>

theorem failed_attempt_recorded:
  assumes hist: "length (failoverHistory m) \<le> 100"
    and mem: "(rid, k) \<in> set (call_requests (executeWithFailover net m opts maxRetries))"
    and rej: "outcome (net rid k) = Rejected response message"
  shows "\<lparr>timestamp = clock (net rid k), fromRegion = rid, event_error = message, attempt = k\<rparr>
        \<in> set (failoverHistory (call_manager (executeWithFailover net m opts maxRetries)))
    \<and> (if \<exists>st. response = Some st \<and> 500 \<le> st
        then map_of (regionHealth (call_manager (executeWithFailover net m opts maxRetries))) rid
               = map_option (\<lambda>h. h\<lparr>healthy := False, lastError := Some message\<rparr>)
                   (map_of (regionHealth m) rid)
             \<and> \<not> isHealthy (call_manager (executeWithFailover net m opts maxRetries)) rid
        else map_of (regionHealth (call_manager (executeWithFailover net m opts maxRetries))) rid
               = map_of (regionHealth m) rid
             \<and> isHealthy (call_manager (executeWithFailover net m opts maxRetries)) rid)
    \<and> (case next_candidate m opts rid of
          Some next_rid \<Rightarrow>
            if k < maxRetries
            then (next_rid, Suc k)
              \<in> set (call_requests (executeWithFailover net m opts maxRetries))
            else call_result (executeWithFailover net m opts maxRetries)
              = Inl (AllRegionsFailed k (Some message))
        | None \<Rightarrow>
            call_result (executeWithFailover net m opts maxRetries)
              = Inl (AllRegionsFailed k (Some message)))"
proof -
  obtain res m' sent where run: "executeWithFailover net m opts maxRetries = (res, m', sent)"
    by (metis prod_cases3)
  with mem have mem: "(rid, k) \<in> set sent" by (simp add: call_requests_def)
  then have "sent \<noteq> []" by auto
  with run obtain preferred where
    loop: "tryRegions net maxRetries m 0 None (regionOrder m preferred) = (res, m', sent)"
    by (auto elim: executeWithFailover_sent)
  have dist: "distinct (map fst sent)"
    using tryRegions_sent_distinct [OF loop distinct_regionOrder] .
  have num: "map snd sent = [Suc 0 ..< Suc (length sent)]"
    using tryRegions_numbering [OF loop] by simp
  have "length (regionOrder m preferred) \<le> 100"
    using length_regionOrder [of m preferred] by simp
  from history_gets_event [OF loop this hist mem rej]
  have event: "\<lparr>timestamp = clock (net rid k), fromRegion = rid, event_error = message,
      attempt = k\<rparr> \<in> set (failoverHistory m')" .
  have m': "m' = foldl (settle net) m sent" using tryRegions_replay [OF loop] .
  have "\<not> skipped m (Some rid)"
    using tryRegions_sent_not_skipped [OF loop distinct_regionOrder] mem by auto
  then have was: "isHealthy m rid" by (simp add: skipped_def)
  have health: "if \<exists>st. response = Some st \<and> 500 \<le> st
        then map_of (regionHealth m') rid
               = map_option (\<lambda>h. h\<lparr>healthy := False, lastError := Some message\<rparr>)
                   (map_of (regionHealth m) rid)
             \<and> \<not> isHealthy m' rid
        else map_of (regionHealth m') rid = map_of (regionHealth m) rid \<and> isHealthy m' rid"
    unfolding m' using foldl_settle_health_same [OF dist mem, of net m] rej was
    by (cases "map_of (regionHealth m) rid") (auto simp: isHealthy_def)
  have continues: "case next_candidate m opts rid of
          Some next_rid \<Rightarrow>
            if k < maxRetries then (next_rid, Suc k) \<in> set sent
            else res = Inl (AllRegionsFailed k (Some message))
        | None \<Rightarrow> res = Inl (AllRegionsFailed k (Some message))"
    using executeWithFailover_next [OF run mem rej] .
  from event health continues show ?thesis
    by (simp add: run call_manager_def call_result_def call_requests_def split: option.splits)
qed

text \<open>
  The claim as stated fails for a connection-level failure: the first request times out,
  without a response, and us-east-1 is still healthy after the call.
\<close>

theorem failed_attempt_recorded_counterexample:
  "outcome (east_fails None ''timeout of 30000ms exceeded'' ''us-east-1'' 1)
      = Rejected None ''timeout of 30000ms exceeded''
   \<and> (''us-east-1'', 1) \<in> set (call_requests (executeWithFailover
        (east_fails None ''timeout of 30000ms exceeded'') all_up no_hint 3))
   \<and> isHealthy (call_manager (executeWithFailover
        (east_fails None ''timeout of 30000ms exceeded'') all_up no_hint 3)) ''us-east-1''"
  by (simp add: run_east_fails_all_up call_requests_def call_manager_def
      isHealthy_request_failed all_up_isHealthy)
     (simp add: east_fails_def failed_with_def)

text \<open>
  Two instances: the first request is answered with 503. With
  \<open>maxRetries = 3\<close> us-east-1 is not healthy after the call, the failure is in
  the failover history, and attempt 2 was sent to us-west-2, the next candidate; with
  \<open>maxRetries = 1\<close> the call throws the error with this failure as the last one.
\<close>

theorem failed_attempt_recorded_witness:
  "length (failoverHistory all_up) \<le> 100
   \<and> (''us-east-1'', 1) \<in> set (call_requests (executeWithFailover
        (east_fails (Some 503) ''Request failed with status code 503'') all_up no_hint 3))
   \<and> (''us-east-1'', 1) \<in> set (call_requests (executeWithFailover
        (east_fails (Some 503) ''Request failed with status code 503'') all_up no_hint 1))
   \<and> outcome (east_fails (Some 503) ''Request failed with status code 503'' ''us-east-1'' 1)
      = Rejected (Some 503) ''Request failed with status code 503''
   \<and> \<not> isHealthy (call_manager (executeWithFailover
        (east_fails (Some 503) ''Request failed with status code 503'') all_up no_hint 3))
        ''us-east-1''
   \<and> \<lparr>timestamp = ''2026-01-01T00:00:30.000Z'', fromRegion = ''us-east-1'',
        event_error = ''Request failed with status code 503'', attempt = 1\<rparr>
      \<in> set (failoverHistory (call_manager (executeWithFailover
        (east_fails (Some 503) ''Request failed with status code 503'') all_up no_hint 3)))
   \<and> next_candidate all_up no_hint ''us-east-1'' = Some ''us-west-2''
   \<and> (''us-west-2'', Suc 1) \<in> set (call_requests (executeWithFailover
        (east_fails (Some 503) ''Request failed with status code 503'') all_up no_hint 3))
   \<and> call_result (executeWithFailover
        (east_fails (Some 503) ''Request failed with status code 503'') all_up no_hint 1)
      = Inl (AllRegionsFailed 1 (Some ''Request failed with status code 503''))"
proof -
  let ?net = "east_fails (Some 503) ''Request failed with status code 503''"
  have h1: "length (failoverHistory all_up) \<le> 100"
    by (simp add: all_up_history)
  have h2: "(''us-east-1'', 1) \<in> set (call_requests (executeWithFailover ?net all_up no_hint 3))"
    by (simp add: run_east_fails_all_up call_requests_def)
  have h2': "(''us-east-1'', 1) \<in> set (call_requests (executeWithFailover ?net all_up no_hint 1))"
    using run_east_fails_once [of "Some 503" "''Request failed with status code 503''"]
    by (simp add: call_requests_def)
  have h3: "outcome (?net ''us-east-1'' 1)
      = Rejected (Some 503) ''Request failed with status code 503''"
    by (simp add: east_fails_def failed_with_def)
  have c: "clock (?net ''us-east-1'' 1) = ''2026-01-01T00:00:30.000Z''"
    by (simp add: east_fails_def failed_with_def)
  from failed_attempt_recorded [OF h1 h2 h3] c
  have a: "\<not> isHealthy (call_manager (executeWithFailover ?net all_up no_hint 3)) ''us-east-1''"
    and b: "\<lparr>timestamp = ''2026-01-01T00:00:30.000Z'', fromRegion = ''us-east-1'',
        event_error = ''Request failed with status code 503'', attempt = 1\<rparr>
      \<in> set (failoverHistory (call_manager (executeWithFailover ?net all_up no_hint 3)))"
    and d: "(''us-west-2'', Suc 1)
      \<in> set (call_requests (executeWithFailover ?net all_up no_hint 3))"
    by (simp_all add: all_up_next)
  from failed_attempt_recorded [OF h1 h2' h3]
  have e: "call_result (executeWithFailover ?net all_up no_hint 1)
      = Inl (AllRegionsFailed 1 (Some ''Request failed with status code 503''))"
    by (simp add: all_up_next)
  from h1 h2 h2' h3 a b d e show ?thesis
    by (simp add: all_up_next)
qed

lemma failoverHistory_call:
  assumes "length (failoverHistory m) \<le> 100"
  shows "failoverHistory (call_manager (executeWithFailover net m opts maxRetries)) =
       last_n 100 (failoverHistory m @
         failure_events net (call_requests (executeWithFailover net m opts maxRetries)))"
proof -
  from assms have id: "failoverHistory m = last_n 100 (failoverHistory m)"
    by (simp add: last_n_id)
  show ?thesis
  proof (cases rule: executeWithFailover_cases [of m opts net maxRetries])
    case thrown
    with id show ?thesis
      by (simp add: call_manager_def call_requests_def failure_events_def)
  next
    case (tried preferred)
    obtain res m' sent where
      loop: "tryRegions net maxRetries m 0 None (regionOrder m preferred) = (res, m', sent)"
      by (metis prod_cases3)
    from failoverHistory_foldl_settle [OF id, of net sent] tryRegions_replay [OF loop]
    show ?thesis
      by (simp add: tried loop call_manager_def call_requests_def)
  qed
qed

lemma failoverHistory_after_calls:
  "length (failoverHistory m) \<le> 100 \<Longrightarrow> length (failoverHistory (after_calls m calls)) \<le> 100"
proof (induction calls arbitrary: m)
  case Nil
  then show ?case by (simp add: after_calls_def)
next
  case (Cons call calls)
  obtain net opts maxRetries where call: "call = (net, opts, maxRetries)"
    by (cases call)
  have "length (failoverHistory (call_manager (executeWithFailover net m opts maxRetries))) \<le> 100"
    by (simp add: failoverHistory_call [OF Cons.prems] length_last_n)
  from Cons.IH [OF this] show ?case
    by (simp add: after_calls_def call)
qed

text \<open>
  Claim C6. The failover history of the manager never holds more than 100 entries: after
  a call it is the last 100 entries of the history before, followed by the events of
  the rejected requests of the call, so the oldest entries are the ones dropped; and so
  it is after any sequence of calls. The cut is part of each push: after
  \<open>request_failed\<close> alone the history is already the last 100 entries.
\<close>

theorem failover_history_capped:
  assumes "length (failoverHistory m) \<le> 100"
  shows "failoverHistory (call_manager (executeWithFailover net m opts maxRetries)) =
       last_n 100 (failoverHistory m @
         failure_events net (call_requests (executeWithFailover net m opts maxRetries)))
    \<and> length (failoverHistory (call_manager (executeWithFailover net m opts maxRetries))) \<le> 100
    \<and> (\<forall>calls. length (failoverHistory (after_calls m calls)) \<le> 100)
    \<and> (\<forall>rid k response message now.
          failoverHistory (request_failed m rid k response message now) =
            last_n 100 (failoverHistory m @
              [\<lparr>timestamp = now, fromRegion = rid, event_error = message, attempt = k\<rparr>])
        \<and> length (failoverHistory (request_failed m rid k response message now)) \<le> 100)"
proof -
  have push: "failoverHistory (request_failed m rid k response message now) =
            last_n 100 (failoverHistory m @
              [\<lparr>timestamp = now, fromRegion = rid, event_error = message, attempt = k\<rparr>])"
    for rid k response message now
    using assms by (rule failoverHistory_request_failed_last_n)
  from failoverHistory_call [OF assms, of net opts maxRetries]
    failoverHistory_after_calls [OF assms] push
  show ?thesis
    by (simp add: length_last_n)
qed

text \<open>
  An instance: the history holds 100 entries before the call, one request of the call is
  rejected, and afterwards the history holds the last 99 of the old entries and the new
  one.
\<close>

theorem failover_history_capped_witness:
  "length (failoverHistory busy) \<le> 100
   \<and> failoverHistory (call_manager (executeWithFailover
        (east_fails (Some 503) ''Request failed with status code 503'') busy no_hint 3))
      = replicate 99 old_event @
        [\<lparr>timestamp = ''2026-01-01T00:00:30.000Z'', fromRegion = ''us-east-1'',
          event_error = ''Request failed with status code 503'', attempt = 1\<rparr>]"
proof -
  let ?net = "east_fails (Some 503) ''Request failed with status code 503''"
  have h: "length (failoverHistory busy) \<le> 100"
    by (simp add: busy_def)
  have sent: "call_requests (executeWithFailover ?net busy no_hint 3)
      = [(''us-east-1'', 1), (''us-west-2'', 2)]"
    by (simp add: busy_def run_east_fails call_requests_def)
  have events: "failure_events ?net [(''us-east-1'', 1), (''us-west-2'', 2)] =
      [\<lparr>timestamp = ''2026-01-01T00:00:30.000Z'', fromRegion = ''us-east-1'',
        event_error = ''Request failed with status code 503'', attempt = 1\<rparr>]"
    by (simp add: failure_events_def east_fails_def failed_with_def replied_def)
  have old: "failoverHistory busy = replicate 100 old_event"
    by (simp add: busy_def)
  from failover_history_capped [OF h, of ?net no_hint 3]
  have "failoverHistory (call_manager (executeWithFailover ?net busy no_hint 3)) =
       last_n 100 (failoverHistory busy @
         failure_events ?net (call_requests (executeWithFailover ?net busy no_hint 3)))"
    by blast
  also have "\<dots> = replicate 99 old_event @
        [\<lparr>timestamp = ''2026-01-01T00:00:30.000Z'', fromRegion = ''us-east-1'',
          event_error = ''Request failed with status code 503'', attempt = 1\<rparr>]"
    unfolding sent events old by (simp add: last_n_def)
  finally show ?thesis using h by simp
qed

end
